theory Spec2Isabelle
  imports Main "HOL-Library.Stream"
begin

section \<open>Exceptions, dates and random sources\<close>

text \<open>
  Every exception the three scripts can raise is a value. \<open>RuntimeError\<close> carries the
  message prefix and the wrapped cause (\<^verbatim>\<open>raise RuntimeError(...) from error\<close>).
\<close>

datatype error =
    IndexError
  | KeyError
  | ValueError
  | TypeError
  | ParseError
  | UniquenessException
  | FileNotFoundError
  | DatabaseError
  | IntegrityError
  | OperationalError
  | PandasDatabaseError
  | OverflowError
  | RuntimeError string error

definition bindE :: "error + 'a \<Rightarrow> ('a \<Rightarrow> error + 'b) \<Rightarrow> error + 'b" where
  "bindE m f = (case m of Inl e \<Rightarrow> Inl e | Inr x \<Rightarrow> f x)"

text \<open>A \<^verbatim>\<open>datetime.date\<close> is its proleptic ordinal (\<^verbatim>\<open>date.toordinal()\<close>).\<close>

type_synonym date = int

definition REGISTRATION_START :: date where
  "REGISTRATION_START = 738521"

definition DATA_END_DATE :: date where
  "DATA_END_DATE = 739220"

text \<open>
  The state of a pseudo-random generator is the stream of raw draws it will still
  deliver; each library call takes the head. Nothing is assumed about the stream, so
  a statement for all streams covers every outcome the real generator can have.
\<close>

type_synonym rng = "nat stream"

definition random_choice :: "'a list \<Rightarrow> rng \<Rightarrow> error + ('a \<times> rng)" where
  "random_choice xs g =
     (if xs = [] then Inl IndexError
      else Inr (xs ! (shd g mod length xs), stl g))"

definition random_randint :: "int \<Rightarrow> int \<Rightarrow> rng \<Rightarrow> error + (int \<times> rng)" where
  "random_randint a b g =
     (if b < a then Inl ValueError
      else Inr (a + int (shd g mod nat (b - a + 1)), stl g))"

text \<open>
  Python floats are kept abstract: a carrier \<open>'f\<close> with the operations the scripts
  use. No law of arithmetic is assumed of them.
\<close>

record 'f float_ops =
  fzero :: 'f
  fnan :: 'f
  fadd :: "'f \<Rightarrow> 'f \<Rightarrow> 'f"
  fscale :: "int \<Rightarrow> 'f \<Rightarrow> 'f"
  py_round2 :: "'f \<Rightarrow> 'f"
  np_round2 :: "'f \<Rightarrow> 'f"
  funiform :: "int \<Rightarrow> int \<Rightarrow> nat \<Rightarrow> 'f"

definition random_uniform :: "'f float_ops \<Rightarrow> int \<Rightarrow> int \<Rightarrow> rng \<Rightarrow> 'f \<times> rng" where
  "random_uniform F a b g = (funiform F a b (shd g), stl g)"

subsection \<open>The Faker object\<close>

datatype provider =
    FirstName | LastName | Email | PhoneNumber | StreetAddress | City | State
  | Postcode | Country | CatchPhrase | Text | Company | Paragraph

text \<open>
  A Faker instance: its provider tables, its own generator, and the values its
  \<^verbatim>\<open>unique\<close> proxy has already handed out (only \<^verbatim>\<open>email\<close> is asked for uniquely).
\<close>

record faker =
  providers :: "provider \<Rightarrow> nat \<Rightarrow> string"
  frandom :: rng
  unique_seen :: "string set"

definition fake_call :: "provider \<Rightarrow> faker \<Rightarrow> string \<times> faker" where
  "fake_call p fake =
     (providers fake p (shd (frandom fake)), fake\<lparr>frandom := stl (frandom fake)\<rparr>)"

text \<open>
  \<^verbatim>\<open>fake.date_between_dates(start, end)\<close>: a date of the closed range; the library
  raises \<^verbatim>\<open>ValueError\<close> on an empty range.
\<close>

definition date_between_dates :: "faker \<Rightarrow> date \<Rightarrow> date \<Rightarrow> error + (date \<times> faker)" where
  "date_between_dates fake date_start date_end =
     (if date_end < date_start then Inl ValueError
      else Inr (date_start + int (shd (frandom fake) mod nat (date_end - date_start + 1)),
                fake\<lparr>frandom := stl (frandom fake)\<rparr>))"

text \<open>
  \<^verbatim>\<open>fake.unique.email()\<close>. The proxy of the library starts from a sentinel, and in
  each of at most \<^verbatim>\<open>_UNIQUENESS_MAX_RETRIES\<close> rounds leaves the loop when the current
  value has not been handed out yet, and otherwise calls the provider again; when
  the rounds are used up it raises \<^verbatim>\<open>UniquenessException\<close>. The value is recorded as
  handed out before it is returned.
\<close>

definition UNIQUENESS_MAX_RETRIES :: nat where
  "UNIQUENESS_MAX_RETRIES = 1000"

fun unique_retry :: "nat \<Rightarrow> string option \<Rightarrow> faker \<Rightarrow> error + (string \<times> faker)" where
  "unique_retry 0 retval fake = Inl UniquenessException"
| "unique_retry (Suc n) retval fake =
     (case retval of
        Some v \<Rightarrow>
          if v \<notin> unique_seen fake
          then Inr (v, fake\<lparr>unique_seen := insert v (unique_seen fake)\<rparr>)
          else (case fake_call Email fake of (v', fake') \<Rightarrow> unique_retry n (Some v') fake')
      | None \<Rightarrow> (case fake_call Email fake of (v', fake') \<Rightarrow> unique_retry n (Some v') fake'))"

definition unique_email :: "faker \<Rightarrow> error + (string \<times> faker)" where
  "unique_email fake = unique_retry UNIQUENESS_MAX_RETRIES None fake"

section \<open>The generated tables\<close>

text \<open>
  A DataFrame is the list of its rows, as \<^verbatim>\<open>pd.DataFrame(list_of_dicts)\<close> builds it.
  The empty list is the frame \<^verbatim>\<open>pd.DataFrame([])\<close>, which has no columns: selecting a
  column of it or \<^verbatim>\<open>set_index\<close> on it raises \<^verbatim>\<open>KeyError\<close>.
\<close>

record customer_row =
  customer_id :: int
  first_name :: string
  last_name :: string
  email :: string
  phone :: string
  address :: string
  city :: string
  state :: string
  zip_code :: string
  country :: string
  registration_date :: date

record 'f product_row =
  product_id :: int
  product_name :: string
  category :: string
  description :: string
  price :: 'f
  stock_quantity :: int
  supplier :: string
  created_date :: date

record 'f order_row =
  order_id :: int
  o_customer_id :: int
  order_date :: date
  total_amount :: 'f
  status :: string
  payment_method :: string

record 'f order_item_row =
  order_item_id :: int
  oi_order_id :: int
  oi_product_id :: int
  quantity :: int
  unit_price :: 'f
  subtotal :: 'f

record review_row =
  review_id :: int
  r_product_id :: int
  r_customer_id :: int
  rating :: int
  review_text :: string
  review_date :: date

text \<open>
  \<^verbatim>\<open>rows = []; for i in ids: rows.append(body(i))\<close>, with the state the body changes
  passed along and the first exception ending the loop.
\<close>

fun for_each :: "('i \<Rightarrow> 's \<Rightarrow> error + ('a \<times> 's)) \<Rightarrow> 'i list \<Rightarrow> 's \<Rightarrow> error + ('a list \<times> 's)" where
  "for_each body [] s = Inr ([], s)"
| "for_each body (i # ids) s =
     (case body i s of
        Inl e \<Rightarrow> Inl e
      | Inr (a, s') \<Rightarrow>
          (case for_each body ids s' of
             Inl e \<Rightarrow> Inl e
           | Inr (as, s'') \<Rightarrow> Inr (a # as, s'')))"

section \<open>generate_customers\<close>

definition make_customer :: "int \<Rightarrow> faker \<Rightarrow> error + (customer_row \<times> faker)" where
  "make_customer cid fake0 =
     bindE (date_between_dates fake0 REGISTRATION_START DATA_END_DATE) (\<lambda>(reg, fake1).
       case fake_call FirstName fake1 of (fn, fake2) \<Rightarrow>
       case fake_call LastName fake2 of (ln, fake3) \<Rightarrow>
       bindE (unique_email fake3) (\<lambda>(em, fake4).
         case fake_call PhoneNumber fake4 of (ph, fake5) \<Rightarrow>
         case fake_call StreetAddress fake5 of (ad, fake6) \<Rightarrow>
         case fake_call City fake6 of (ci, fake7) \<Rightarrow>
         case fake_call State fake7 of (st, fake8) \<Rightarrow>
         case fake_call Postcode fake8 of (zi, fake9) \<Rightarrow>
         case fake_call Country fake9 of (co, fake10) \<Rightarrow>
         Inr (\<lparr>customer_id = cid, first_name = fn, last_name = ln, email = em,
               phone = ph, address = ad, city = ci, state = st, zip_code = zi,
               country = co, registration_date = reg\<rparr>, fake10)))"

definition generate_customers :: "faker \<Rightarrow> int \<Rightarrow> error + (customer_row list \<times> faker)" where
  "generate_customers fake count = for_each make_customer [1..count] fake"

section \<open>generate_products\<close>

definition categories :: "string list" where
  "categories = [''Electronics'', ''Clothing'', ''Home & Garden'', ''Sports'', ''Books'']"

text \<open>
  The two generators of the run are separate: the \<^verbatim>\<open>random\<close> module's global one
  (\<open>rnd\<close>) and the one inside the Faker object.
\<close>

definition make_product ::
  "'f float_ops \<Rightarrow> int \<Rightarrow> faker \<times> rng \<Rightarrow> error + ('f product_row \<times> (faker \<times> rng))" where
  "make_product F pid s =
     (case s of (fake0, rnd0) \<Rightarrow>
       case random_uniform F 5 500 rnd0 of (u, rnd1) \<Rightarrow>
       case fake_call CatchPhrase fake0 of (nm, fake1) \<Rightarrow>
       bindE (random_choice categories rnd1) (\<lambda>(cat, rnd2).
         case fake_call Text fake1 of (ds, fake2) \<Rightarrow>
         bindE (random_randint 0 1000 rnd2) (\<lambda>(stock, rnd3).
           case fake_call Company fake2 of (su, fake3) \<Rightarrow>
           bindE (date_between_dates fake3 REGISTRATION_START DATA_END_DATE) (\<lambda>(cd, fake4).
             Inr (\<lparr>product_id = pid, product_name = nm, category = cat, description = ds,
                   price = py_round2 F u, stock_quantity = stock, supplier = su,
                   created_date = cd\<rparr>, (fake4, rnd3))))))"

definition generate_products ::
  "'f float_ops \<Rightarrow> faker \<Rightarrow> rng \<Rightarrow> int \<Rightarrow> error + ('f product_row list \<times> (faker \<times> rng))" where
  "generate_products F fake rnd count = for_each (make_product F) [1..count] (fake, rnd)"

section \<open>generate_orders\<close>

definition statuses :: "string list" where
  "statuses = [''Pending'', ''Processing'', ''Shipped'', ''Delivered'', ''Cancelled'']"

definition payment_methods :: "string list" where
  "payment_methods = [''Credit Card'', ''Debit Card'', ''PayPal'', ''Cash on Delivery'']"

definition make_order ::
  "'f float_ops \<Rightarrow> customer_row list \<Rightarrow> int \<Rightarrow> faker \<times> rng
     \<Rightarrow> error + ('f order_row \<times> (faker \<times> rng))" where
  "make_order F customers oid s =
     (case s of (fake0, rnd0) \<Rightarrow>
       bindE (random_choice customers rnd0) (\<lambda>(customer, rnd1).
         bindE (date_between_dates fake0 (registration_date customer) DATA_END_DATE)
           (\<lambda>(od, fake1).
             bindE (random_choice statuses rnd1) (\<lambda>(st, rnd2).
               bindE (random_choice payment_methods rnd2) (\<lambda>(pm, rnd3).
                 Inr (\<lparr>order_id = oid, o_customer_id = customer_id customer,
                       order_date = od, total_amount = fzero F, status = st,
                       payment_method = pm\<rparr>, (fake1, rnd3)))))))"

definition generate_orders ::
  "'f float_ops \<Rightarrow> faker \<Rightarrow> rng \<Rightarrow> customer_row list \<Rightarrow> int
     \<Rightarrow> error + ('f order_row list \<times> (faker \<times> rng))" where
  "generate_orders F fake rnd customers_df count =
     for_each (make_order F customers_df) [1..count] (fake, rnd)"

section \<open>generate_order_items\<close>

text \<open>
  \<^verbatim>\<open>df.set_index(key).loc[k]\<close>: no row with the label raises \<^verbatim>\<open>KeyError\<close>, one row
  is that row, and a label that several rows carry gives a frame of them instead of
  a row.
\<close>

datatype 'a loc_result = Missing | Row 'a | Rows "'a list"

definition loc :: "('a \<Rightarrow> int) \<Rightarrow> 'a list \<Rightarrow> int \<Rightarrow> 'a loc_result" where
  "loc key df k =
     (case filter (\<lambda>r. key r = k) df of
        [] \<Rightarrow> Missing
      | [r] \<Rightarrow> Row r
      | r # r' # rs \<Rightarrow> Rows (r # r' # rs))"

text \<open>
  \<^verbatim>\<open>build_item\<close> closes over \<^verbatim>\<open>products_df\<close>, \<^verbatim>\<open>products\<close> and the dictionary
  \<^verbatim>\<open>order_totals\<close>, which it updates; \<^verbatim>\<open>float\<close> of the several prices of a repeated
  product id raises \<^verbatim>\<open>TypeError\<close>.
\<close>

definition build_item ::
  "'f float_ops \<Rightarrow> 'f product_row list \<Rightarrow> int \<Rightarrow> int \<Rightarrow> rng \<times> (int \<rightharpoonup> 'f)
     \<Rightarrow> error + ('f order_item_row \<times> (rng \<times> (int \<rightharpoonup> 'f)))" where
  "build_item F products_df record_id oid s =
     (case s of (rnd0, order_totals) \<Rightarrow>
       bindE (random_choice (map product_id products_df) rnd0) (\<lambda>(pid, rnd1).
         bindE (case loc product_id products_df pid of
                  Missing \<Rightarrow> Inl KeyError
                | Row p \<Rightarrow> Inr (price p)
                | Rows ps \<Rightarrow> Inl TypeError) (\<lambda>pr.
           bindE (random_randint 1 5 rnd1) (\<lambda>(qty, rnd2).
             case order_totals oid of
               None \<Rightarrow> Inl KeyError
             | Some t \<Rightarrow>
                 Inr (\<lparr>order_item_id = record_id, oi_order_id = oid, oi_product_id = pid,
                       quantity = qty, unit_price = pr,
                       subtotal = py_round2 F (fscale F qty pr)\<rparr>,
                      (rnd2, order_totals(oid \<mapsto>
                         fadd F t (py_round2 F (fscale F qty pr)))))))))"

text \<open>The body of the first loop: one item for the order, then \<^verbatim>\<open>record_id += 1\<close>.\<close>

definition seed_item ::
  "'f float_ops \<Rightarrow> 'f product_row list \<Rightarrow> int \<Rightarrow> int \<times> (rng \<times> (int \<rightharpoonup> 'f))
     \<Rightarrow> error + ('f order_item_row \<times> (int \<times> (rng \<times> (int \<rightharpoonup> 'f))))" where
  "seed_item F products_df oid s =
     (case s of (record_id, st) \<Rightarrow>
       bindE (build_item F products_df record_id oid st) (\<lambda>(item, st').
         Inr (item, (record_id + 1, st'))))"

text \<open>The \<^verbatim>\<open>while record_id <= count\<close> loop; it returns the items it appends.\<close>

function fill_remaining ::
  "'f float_ops \<Rightarrow> 'f order_row list \<Rightarrow> 'f product_row list \<Rightarrow> int \<Rightarrow> int
     \<Rightarrow> rng \<times> (int \<rightharpoonup> 'f)
     \<Rightarrow> error + ('f order_item_row list \<times> (rng \<times> (int \<rightharpoonup> 'f)))" where
  "fill_remaining F orders_df products_df count record_id s =
     (if record_id \<le> count then
        (case s of (rnd0, order_totals) \<Rightarrow>
          bindE (random_choice (map order_id orders_df) rnd0) (\<lambda>(random_order_id, rnd1).
            bindE (build_item F products_df record_id random_order_id (rnd1, order_totals))
              (\<lambda>(item, s').
                bindE (fill_remaining F orders_df products_df count (record_id + 1) s')
                  (\<lambda>(items, s''). Inr (item # items, s'')))))
      else Inr ([], s))"
  by pat_completeness auto
termination
  by (relation "measure (\<lambda>(F, orders_df, products_df, count, record_id, s).
        nat (count + 1 - record_id))") auto

declare fill_remaining.simps [simp del]

text \<open>\<^verbatim>\<open>{order_id: 0.0 for order_id in orders.index}\<close>\<close>

definition initial_totals :: "'f float_ops \<Rightarrow> 'f order_row list \<Rightarrow> (int \<rightharpoonup> 'f)" where
  "initial_totals F orders_df =
     foldl (\<lambda>m oid. m(oid \<mapsto> fzero F)) Map.empty (map order_id orders_df)"

text \<open>
  \<^verbatim>\<open>orders_df["total_amount"] = orders_df["order_id"].map(order_totals).round(2)\<close>:
  an id absent from the dictionary maps to NaN.
\<close>

definition write_totals :: "'f float_ops \<Rightarrow> (int \<rightharpoonup> 'f) \<Rightarrow> 'f order_row list \<Rightarrow> 'f order_row list" where
  "write_totals F order_totals orders_df =
     map (\<lambda>row. row\<lparr>total_amount :=
            np_round2 F (case order_totals (order_id row) of
                           Some t \<Rightarrow> t
                         | None \<Rightarrow> fnan F)\<rparr>) orders_df"

text \<open>
  The function returns the item frame and leaves the caller's \<^verbatim>\<open>orders_df\<close> changed;
  the model returns both. The assignment to \<^verbatim>\<open>orders_df\<close> is the last statement
  before the return, so a call that raises has not touched the frame.
\<close>

definition generate_order_items ::
  "'f float_ops \<Rightarrow> rng \<Rightarrow> 'f order_row list \<Rightarrow> 'f product_row list \<Rightarrow> int
     \<Rightarrow> error + ('f order_item_row list \<times> 'f order_row list \<times> rng)" where
  "generate_order_items F rnd orders_df products_df count =
     (if products_df = [] then Inl KeyError
      else if orders_df = [] then Inl KeyError
      else
        bindE (for_each (seed_item F products_df) (map order_id orders_df)
                 (1, (rnd, initial_totals F orders_df))) (\<lambda>(seeds, (record_id, s1)).
          bindE (fill_remaining F orders_df products_df count record_id s1)
            (\<lambda>(extras, (rnd', order_totals)).
              Inr (seeds @ extras, write_totals F order_totals orders_df, rnd'))))"

section \<open>generate_reviews\<close>

text \<open>
  \<^verbatim>\<open>df.sample(n=count, replace=True, random_state=42)\<close> draws \<open>n\<close> row positions from
  a generator of its own, seeded with the given state; \<open>np_seed\<close> is that seeding
  function. A negative \<open>n\<close>, and a positive one on a frame without rows, raise
  \<^verbatim>\<open>ValueError\<close>.
\<close>

definition df_sample :: "(int \<Rightarrow> rng) \<Rightarrow> 'a list \<Rightarrow> int \<Rightarrow> int \<Rightarrow> error + 'a list" where
  "df_sample np_seed df n random_state =
     (if n < 0 then Inl ValueError
      else if n = 0 then Inr []
      else if df = [] then Inl ValueError
      else Inr (map (\<lambda>k. df ! (k mod length df)) (stake (nat n) (np_seed random_state))))"

text \<open>
  The loop body. A repeated order id makes \<^verbatim>\<open>order_lookup.loc[order_id]\<close> a frame and
  \<^verbatim>\<open>order["order_date"]\<close> a column, which the date parser of Faker rejects.
\<close>

definition make_review ::
  "'f order_row list \<Rightarrow> int \<times> 'f order_item_row \<Rightarrow> faker \<times> rng
     \<Rightarrow> error + (review_row \<times> (faker \<times> rng))" where
  "make_review orders_df entry s =
     (case entry of (rid, item) \<Rightarrow>
      case s of (fake0, rnd0) \<Rightarrow>
       bindE (case loc order_id orders_df (oi_order_id item) of
                Missing \<Rightarrow> Inl KeyError
              | Row ord \<Rightarrow> Inr ord
              | Rows rs \<Rightarrow> Inl ParseError) (\<lambda>ord.
         bindE (date_between_dates fake0 (order_date ord) DATA_END_DATE) (\<lambda>(rd, fake1).
           bindE (random_randint 1 5 rnd0) (\<lambda>(rt, rnd1).
             case fake_call Paragraph fake1 of (tx, fake2) \<Rightarrow>
               Inr (\<lparr>review_id = rid, r_product_id = oi_product_id item,
                     r_customer_id = o_customer_id ord, rating = rt, review_text = tx,
                     review_date = rd\<rparr>, (fake2, rnd1))))))"

definition generate_reviews ::
  "(int \<Rightarrow> rng) \<Rightarrow> faker \<Rightarrow> rng \<Rightarrow> 'f order_item_row list \<Rightarrow> 'f order_row list \<Rightarrow> int
     \<Rightarrow> error + (review_row list \<times> (faker \<times> rng))" where
  "generate_reviews np_seed fake rnd order_items_df orders_df count =
     (if orders_df = [] then Inl KeyError
      else
        bindE (df_sample np_seed order_items_df count 42) (\<lambda>selectable_items.
          for_each (make_review orders_df)
            (zip [1..int (length selectable_items)] selectable_items) (fake, rnd)))"

section \<open>main of generate_ecommerce_data.py\<close>

definition CUSTOMER_COUNT :: int where
  "CUSTOMER_COUNT = 1000"

definition PRODUCT_COUNT :: int where
  "PRODUCT_COUNT = 500"

definition ORDER_COUNT :: int where
  "ORDER_COUNT = 2000"

definition ORDER_ITEM_COUNT :: int where
  "ORDER_ITEM_COUNT = 5000"

definition REVIEW_COUNT :: int where
  "REVIEW_COUNT = 1500"

record counts =
  customer_count :: int
  product_count :: int
  order_count :: int
  order_item_count :: int
  review_count :: int

record 'f datasets =
  customers_csv :: "customer_row list"
  products_csv :: "'f product_row list"
  orders_csv :: "'f order_row list"
  order_items_csv :: "'f order_item_row list"
  reviews_csv :: "review_row list"

text \<open>
  What the run depends on from outside: the float operations, the seeding functions
  of the two generator kinds, Faker's provider tables, and the state the process is
  in when \<^verbatim>\<open>main\<close> starts (the states of the global generator and of Faker's shared
  generator).
\<close>

record 'f library =
  float_lib :: "'f float_ops"
  mt_seed :: "int \<Rightarrow> rng"
  np_seed_lib :: "int \<Rightarrow> rng"
  faker_providers :: "provider \<Rightarrow> nat \<Rightarrow> string"

record process =
  global_random :: rng
  faker_random :: rng

text \<open>The statements inside \<^verbatim>\<open>try\<close>, for given target counts.\<close>

definition generate_all ::
  "'f library \<Rightarrow> counts \<Rightarrow> faker \<Rightarrow> rng \<Rightarrow> error + 'f datasets" where
  "generate_all L c fake0 rnd0 =
     bindE (generate_customers fake0 (customer_count c)) (\<lambda>(customers_df, fake1).
       bindE (generate_products (float_lib L) fake1 rnd0 (product_count c))
         (\<lambda>(products_df, (fake2, rnd2)).
           bindE (generate_orders (float_lib L) fake2 rnd2 customers_df (order_count c))
             (\<lambda>(orders_df, (fake3, rnd3)).
               bindE (generate_order_items (float_lib L) rnd3 orders_df products_df
                        (order_item_count c))
                 (\<lambda>(order_items_df, orders_df', rnd4).
                   bindE (generate_reviews (np_seed_lib L) fake3 rnd4 order_items_df
                            orders_df' (review_count c))
                     (\<lambda>(reviews_df, s).
                       Inr \<lparr>customers_csv = customers_df, products_csv = products_df,
                            orders_csv = orders_df', order_items_csv = order_items_df,
                            reviews_csv = reviews_df\<rparr>)))))"

text \<open>
  \<^verbatim>\<open>random.seed(42)\<close>, \<^verbatim>\<open>fake = Faker()\<close>, \<^verbatim>\<open>Faker.seed(42)\<close>, then the generation
  with any exception wrapped, then the five frames handed to \<^verbatim>\<open>save_dataframe\<close>.
\<close>

definition generate_main_with :: "'f library \<Rightarrow> counts \<Rightarrow> process \<Rightarrow> error + 'f datasets" where
  "generate_main_with L c w =
     (let w1 = w\<lparr>global_random := mt_seed L 42\<rparr>;
          fake = \<lparr>providers = faker_providers L, frandom = faker_random w1,
                  unique_seen = {}\<rparr>;
          w2 = w1\<lparr>faker_random := mt_seed L 42\<rparr>;
          fake' = fake\<lparr>frandom := faker_random w2\<rparr>
      in case generate_all L c fake' (global_random w2) of
           Inl e \<Rightarrow> Inl (RuntimeError ''Data generation failed'' e)
         | Inr d \<Rightarrow> Inr d)"

definition generate_main :: "'f library \<Rightarrow> process \<Rightarrow> error + 'f datasets" where
  "generate_main L w =
     generate_main_with L \<lparr>customer_count = CUSTOMER_COUNT, product_count = PRODUCT_COUNT,
                  order_count = ORDER_COUNT, order_item_count = ORDER_ITEM_COUNT,
                  review_count = REVIEW_COUNT\<rparr> w"

section \<open>analyze_ecommerce.py\<close>

text \<open>
  \<^verbatim>\<open>sqlite3.DatabaseError\<close> and its subclasses; the error pandas raises for a failed
  statement is a class of its own and is not among them.
\<close>

fun sqlite3_DatabaseError :: "error \<Rightarrow> bool" where
  "sqlite3_DatabaseError DatabaseError = True"
| "sqlite3_DatabaseError IntegrityError = True"
| "sqlite3_DatabaseError OperationalError = True"
| "sqlite3_DatabaseError e = False"

text \<open>
  The database is what it answers: for the query of each name an exception, or the
  rows and the seconds the query took. What the script prints and writes is a log.
\<close>

type_synonym QueryResult = "string \<times> nat \<times> nat"

type_synonym 'r connection = "string \<Rightarrow> error + ('r list \<times> nat)"

datatype 'r event =
    Running string
  | Reported string nat
  | Exported string "'r list"
  | NoQueries
  | Summary "QueryResult list"
  | Completed

definition execute_and_report ::
  "'r connection \<Rightarrow> string \<Rightarrow> 'r event list \<Rightarrow> 'r event list \<times> (error + QueryResult)" where
  "execute_and_report conn name log =
     (case conn name of
        Inl e \<Rightarrow>
          (log @ [Running name],
           Inl (if sqlite3_DatabaseError e then RuntimeError ''Query failed'' e else e))
      | Inr (dataframe, duration) \<Rightarrow>
          (log @ [Running name, Reported name (length dataframe), Exported name dataframe],
           Inr (name, length dataframe, duration)))"

text \<open>
  The five runners differ in the name, the SQL text and the description they pass to
  \<^verbatim>\<open>execute_and_report\<close>; a runner is given by its name.
\<close>

definition query_functions :: "string list" where
  "query_functions =
     [''top_customers_by_revenue'', ''product_performance_with_reviews'',
      ''complete_order_details'', ''category_sales_summary'',
      ''customer_engagement_metrics'']"

text \<open>\<^verbatim>\<open>for runner in query_functions: results.append(runner(connection))\<close>\<close>

fun run_queries ::
  "'r connection \<Rightarrow> string list \<Rightarrow> 'r event list \<Rightarrow> QueryResult list
     \<Rightarrow> 'r event list \<times> (error + QueryResult list)" where
  "run_queries conn [] log results = (log, Inr results)"
| "run_queries conn (runner # rest) log results =
     (case execute_and_report conn runner log of
        (log', Inl e) \<Rightarrow> (log', Inl e)
      | (log', Inr r) \<Rightarrow> run_queries conn rest log' (results @ [r]))"

definition summarize_runs :: "QueryResult list \<Rightarrow> 'r event list \<Rightarrow> 'r event list" where
  "summarize_runs results log =
     (if results = [] then log @ [NoQueries] else log @ [Summary results])"

definition analyze_main ::
  "bool \<Rightarrow> 'r connection \<Rightarrow> 'r event list \<times> (error + unit)" where
  "analyze_main database_exists conn =
     (if \<not> database_exists then ([], Inl FileNotFoundError)
      else
        case run_queries conn query_functions [] [] of
          (log, Inl e) \<Rightarrow> (log, Inl (RuntimeError ''Analysis failed'' e))
        | (log, Inr results) \<Rightarrow> (summarize_runs results log @ [Completed], Inr ()))"

text \<open>The database of the example: the table the second query reads is missing.\<close>

definition reviews_table_missing :: "nat connection" where
  "reviews_table_missing name =
     (if name = ''product_performance_with_reviews'' then Inl PandasDatabaseError
      else Inr ([1, 2, 3], 0))"

section \<open>ingest_data_to_sqlite.py\<close>

text \<open>
  A connection: the committed contents of each table, and the contents as the open
  transaction sees them, if one is open. What happens to a row handed to the cursor
  is the answer of the \<open>engine\<close>, given the present contents, the table and the
  row: the row is taken (\<open>None\<close>), or an exception is raised for it. That exception
  is \<open>IntegrityError\<close> for a violated constraint of the schema, and it can be one
  that is no \<^verbatim>\<open>sqlite3.DatabaseError\<close>, as the \<open>OverflowError\<close> for an integer that
  does not fit 64 bits, raised when the row is bound.
\<close>

record 'r database =
  committed :: "string \<Rightarrow> 'r list"
  txn :: "(string \<Rightarrow> 'r list) option"

type_synonym 'r engine = "(string \<Rightarrow> 'r list) \<Rightarrow> string \<Rightarrow> 'r \<Rightarrow> error option"

text \<open>The contents of the tables as a statement on the connection sees them.\<close>

definition visible :: "'r database \<Rightarrow> string \<Rightarrow> 'r list" where
  "visible db = (case txn db of Some t \<Rightarrow> t | None \<Rightarrow> committed db)"

definition execute_begin :: "'r database \<Rightarrow> error + 'r database" where
  "execute_begin db =
     (case txn db of
        Some t \<Rightarrow> Inl OperationalError
      | None \<Rightarrow> Inr (db\<lparr>txn := Some (committed db)\<rparr>))"

definition execute_insert :: "'r engine \<Rightarrow> string \<Rightarrow> 'r \<Rightarrow> 'r database \<Rightarrow> error + 'r database" where
  "execute_insert engine table row db =
     (case engine (visible db) table row of
        Some e \<Rightarrow> Inl e
      | None \<Rightarrow> Inr (db\<lparr>txn := Some ((visible db)(table := visible db table @ [row]))\<rparr>))"

text \<open>
  \<^verbatim>\<open>cursor.executemany\<close>: the rows before the one that raises stay in the
  transaction.
\<close>

fun executemany ::
  "'r engine \<Rightarrow> string \<Rightarrow> 'r list \<Rightarrow> 'r database \<Rightarrow> 'r database \<times> error option" where
  "executemany engine table [] db = (db, None)"
| "executemany engine table (row # rows) db =
     (case execute_insert engine table row db of
        Inl e \<Rightarrow> (db, Some e)
      | Inr db' \<Rightarrow> executemany engine table rows db')"

definition commit :: "'r database \<Rightarrow> 'r database" where
  "commit db =
     (case txn db of
        Some t \<Rightarrow> db\<lparr>committed := t, txn := None\<rparr>
      | None \<Rightarrow> db)"

definition rollback :: "'r database \<Rightarrow> 'r database" where
  "rollback db = db\<lparr>txn := None\<rparr>"

definition insert_order :: "string list" where
  "insert_order = [''customers'', ''products'', ''orders'', ''order_items'', ''reviews'']"

text \<open>
  The loop inside \<^verbatim>\<open>try\<close>: a table name missing from \<^verbatim>\<open>dataframes\<close> raises
  \<^verbatim>\<open>KeyError\<close>.
\<close>

fun insert_tables ::
  "'r engine \<Rightarrow> (string \<rightharpoonup> 'r list) \<Rightarrow> string list \<Rightarrow> 'r database
     \<Rightarrow> 'r database \<times> error option" where
  "insert_tables engine dataframes [] db = (db, None)"
| "insert_tables engine dataframes (table_name # rest) db =
     (case dataframes table_name of
        None \<Rightarrow> (db, Some KeyError)
      | Some rows \<Rightarrow>
          (case executemany engine table_name rows db of
             (db', Some e) \<Rightarrow> (db', Some e)
           | (db', None) \<Rightarrow> insert_tables engine dataframes rest db'))"

text \<open>
  \<^verbatim>\<open>insert_data\<close>: only a \<^verbatim>\<open>sqlite3.DatabaseError\<close> is caught, rolled back and wrapped;
  any other exception leaves the function as it is, with the transaction still open.
\<close>

definition insert_data ::
  "'r engine \<Rightarrow> 'r database \<Rightarrow> (string \<rightharpoonup> 'r list) \<Rightarrow> 'r database \<times> (error + unit)" where
  "insert_data engine connection dataframes =
     (let (db, failure) =
            (case execute_begin connection of
               Inl e \<Rightarrow> (connection, Some e)
             | Inr db0 \<Rightarrow>
                 (case insert_tables engine dataframes insert_order db0 of
                    (db1, Some e) \<Rightarrow> (db1, Some e)
                  | (db1, None) \<Rightarrow> (commit db1, None)))
      in case failure of
           None \<Rightarrow> (db, Inr ())
         | Some e \<Rightarrow>
             if sqlite3_DatabaseError e
             then (rollback db, Inl (RuntimeError ''Insertion failed'' e))
             else (db, Inl e))"

section \<open>Notions of the specification\<close>

text \<open>
  The items that reference an order, in the order of their generation, and the sum
  of floats taken from \<open>0.0\<close> in list order.
\<close>

definition items_of_order :: "'f order_item_row list \<Rightarrow> int \<Rightarrow> 'f order_item_row list" where
  "items_of_order items oid = filter (\<lambda>item. oi_order_id item = oid) items"

definition fsum :: "'f float_ops \<Rightarrow> 'f list \<Rightarrow> 'f" where
  "fsum F xs = foldl (fadd F) (fzero F) xs"

text \<open>
  The dictionary \<^verbatim>\<open>order_totals\<close> agrees with a list of items when each of its
  entries is the sum of the subtotals of the order's items in the list.
\<close>

definition totals_agree ::
  "'f float_ops \<Rightarrow> (int \<rightharpoonup> 'f) \<Rightarrow> 'f order_item_row list \<Rightarrow> bool" where
  "totals_agree F m items \<longleftrightarrow>
     (\<forall>oid t. m oid = Some t \<longrightarrow> t = fsum F (map subtotal (items_of_order items oid)))"

text \<open>The rows a complete load adds to a table: those of its frame, for the five tables.\<close>

definition loaded :: "(string \<rightharpoonup> 'r list) \<Rightarrow> string \<Rightarrow> 'r list" where
  "loaded dataframes table =
     (if table \<in> set insert_order
      then (case dataframes table of Some rows \<Rightarrow> rows | None \<Rightarrow> [])
      else [])"

section \<open>Concrete inputs for the examples\<close>

text \<open>Amounts as whole cents with exact arithmetic: one instance of the float operations.\<close>

definition cents :: "int float_ops" where
  "cents = \<lparr>fzero = 0, fnan = - 1, fadd = (\<lambda>a b. a + b), fscale = (\<lambda>q p. q * p),
            py_round2 = (\<lambda>x. x), np_round2 = (\<lambda>x. x),
            funiform = (\<lambda>a b r. 100 * a + int (r mod nat (100 * (b - a) + 1)))\<rparr>"

definition two_products :: "int product_row list" where
  "two_products =
     [\<lparr>product_id = 1, product_name = ''Lamp'', category = ''Home & Garden'',
       description = ''desk lamp'', price = 1999, stock_quantity = 10,
       supplier = ''Lumen'', created_date = 738600\<rparr>,
      \<lparr>product_id = 2, product_name = ''Novel'', category = ''Books'',
       description = ''paperback'', price = 850, stock_quantity = 3,
       supplier = ''Press'', created_date = 738700\<rparr>]"

definition new_order :: "int \<Rightarrow> int order_row" where
  "new_order oid = \<lparr>order_id = oid, o_customer_id = 10 + oid, order_date = 739000 + oid,
                    total_amount = 0, status = ''Pending'', payment_method = ''PayPal''\<rparr>"

definition five_orders :: "int order_row list" where
  "five_orders = [new_order 1, new_order 2, new_order 3, new_order 4, new_order 5]"

definition two_orders :: "int order_row list" where
  "two_orders = [new_order 1, new_order 2]"

text \<open>Raw draws for an example run: the listed values, then zeros.\<close>

definition example_draws :: rng where
  "example_draws = 0 ## 2 ## 1 ## 0 ## 1 ## 1 ## 4 ## sconst 0"

text \<open>What the example run returns.\<close>

definition example_items :: "int order_item_row list" where
  "example_items =
     [\<lparr>order_item_id = 1, oi_order_id = 1, oi_product_id = 1,
       quantity = 3, unit_price = 1999, subtotal = 5997\<rparr>,
      \<lparr>order_item_id = 2, oi_order_id = 2, oi_product_id = 2,
       quantity = 1, unit_price = 850, subtotal = 850\<rparr>,
      \<lparr>order_item_id = 3, oi_order_id = 2, oi_product_id = 2,
       quantity = 5, unit_price = 850, subtotal = 4250\<rparr>,
      \<lparr>order_item_id = 4, oi_order_id = 1, oi_product_id = 1,
       quantity = 1, unit_price = 1999, subtotal = 1999\<rparr>]"

definition example_orders :: "int order_row list" where
  "example_orders = [(new_order 1)\<lparr>total_amount := 7996\<rparr>, (new_order 2)\<lparr>total_amount := 5100\<rparr>]"

definition new_customer :: "int \<Rightarrow> date \<Rightarrow> customer_row" where
  "new_customer cid reg =
     \<lparr>customer_id = cid, first_name = ''Ada'', last_name = ''Byron'',
      email = ''ada@x.org'', phone = ''555'', address = ''1 Main St'', city = ''Leeds'',
      state = ''Ohio'', zip_code = ''12345'', country = ''Peru'', registration_date = reg\<rparr>"

definition two_customers :: "customer_row list" where
  "two_customers = [new_customer 1 738600, new_customer 2 739100]"

definition example_faker :: faker where
  "example_faker = \<lparr>providers = (\<lambda>p n. ''lorem''), frandom = 5 ## 200 ## 7 ## sconst 0,
                     unique_seen = {}\<rparr>"

text \<open>A small library for an example run of the whole generation.\<close>

definition example_library :: "int library" where
  "example_library =
     \<lparr>float_lib = cents,
      mt_seed = (\<lambda>seed. 3 ## 1 ## 4 ## 1 ## 5 ## 9 ## 2 ## 6 ## 5 ## 3 ## 5 ## 8 ## 9 ## 7
                          ## sconst 2),
      np_seed_lib = (\<lambda>seed. 2 ## 5 ## sconst 0),
      faker_providers = (\<lambda>p n. if p = Email
                                then [''a@x.org'', ''b@x.org'', ''c@x.org'', ''d@x.org''] ! (n mod 4)
                                else ''lorem'')\<rparr>"

definition example_counts :: counts where
  "example_counts = \<lparr>customer_count = 2, product_count = 2, order_count = 2,
                      order_item_count = 3, review_count = 2\<rparr>"

text \<open>The frames of the example run.\<close>

definition example_customers :: "customer_row list" where
  "example_customers =
     [\<lparr>customer_id = 1, first_name = ''lorem'', last_name = ''lorem'', email = ''b@x.org'',
       phone = ''lorem'', address = ''lorem'', city = ''lorem'', state = ''lorem'',
       zip_code = ''lorem'', country = ''lorem'', registration_date = 738524\<rparr>,
      \<lparr>customer_id = 2, first_name = ''lorem'', last_name = ''lorem'', email = ''d@x.org'',
       phone = ''lorem'', address = ''lorem'', city = ''lorem'', state = ''lorem'',
       zip_code = ''lorem'', country = ''lorem'', registration_date = 738526\<rparr>]"

definition example_products :: "int product_row list" where
  "example_products =
     [\<lparr>product_id = 1, product_name = ''lorem'', category = ''Clothing'',
       description = ''lorem'', price = 503, stock_quantity = 4, supplier = ''lorem'',
       created_date = 738523\<rparr>,
      \<lparr>product_id = 2, product_name = ''lorem'', category = ''Electronics'',
       description = ''lorem'', price = 501, stock_quantity = 9, supplier = ''lorem'',
       created_date = 738523\<rparr>]"

definition example_new_orders :: "int order_row list" where
  "example_new_orders =
     [\<lparr>order_id = 1, o_customer_id = 1, order_date = 738526, total_amount = 0,
       status = ''Processing'', payment_method = ''Debit Card''\<rparr>,
      \<lparr>order_id = 2, o_customer_id = 2, order_date = 738528, total_amount = 0,
       status = ''Pending'', payment_method = ''Credit Card''\<rparr>]"

definition example_final_orders :: "int order_row list" where
  "example_final_orders =
     [\<lparr>order_id = 1, o_customer_id = 1, order_date = 738526, total_amount = 3012,
       status = ''Processing'', payment_method = ''Debit Card''\<rparr>,
      \<lparr>order_id = 2, o_customer_id = 2, order_date = 738528, total_amount = 1509,
       status = ''Pending'', payment_method = ''Credit Card''\<rparr>]"

definition example_order_items :: "int order_item_row list" where
  "example_order_items =
     [\<lparr>order_item_id = 1, oi_order_id = 1, oi_product_id = 2, quantity = 3,
       unit_price = 501, subtotal = 1503\<rparr>,
      \<lparr>order_item_id = 2, oi_order_id = 2, oi_product_id = 1, quantity = 3,
       unit_price = 503, subtotal = 1509\<rparr>,
      \<lparr>order_item_id = 3, oi_order_id = 1, oi_product_id = 1, quantity = 3,
       unit_price = 503, subtotal = 1509\<rparr>]"

definition example_reviews :: "review_row list" where
  "example_reviews =
     [\<lparr>review_id = 1, r_product_id = 1, r_customer_id = 1, rating = 3,
       review_text = ''lorem'', review_date = 738528\<rparr>,
      \<lparr>review_id = 2, r_product_id = 1, r_customer_id = 1, rating = 3,
       review_text = ''lorem'', review_date = 738528\<rparr>]"

definition example_faker_after :: faker where
  "example_faker_after =
     \<lparr>providers = faker_providers example_library, frandom = sconst 2,
      unique_seen = {''d@x.org'', ''b@x.org''}\<rparr>"

text \<open>What a log of the analysis shows: the queries started, the result files
  written, and the summaries printed.\<close>

definition queries_started :: "'r event list \<Rightarrow> string list" where
  "queries_started log = [n. Running n \<leftarrow> log]"

definition queries_exported :: "'r event list \<Rightarrow> string list" where
  "queries_exported log = [n. Exported n rows \<leftarrow> log]"

definition summaries :: "'r event list \<Rightarrow> QueryResult list list" where
  "summaries log = [rs. Summary rs \<leftarrow> log]"

text \<open>
  An engine for the examples of a load: rows are integer keys; a key of \<open>2^63\<close> or
  more cannot be bound, and a key already in the table violates its primary key.
\<close>

definition integer_keys :: "nat engine" where
  "integer_keys contents table row =
     (if 9223372036854775808 \<le> row then Some OverflowError
      else if row \<in> set (contents table) then Some IntegrityError
      else None)"

definition empty_database :: "nat database" where
  "empty_database = \<lparr>committed = (\<lambda>table. []), txn = None\<rparr>"

text \<open>Files in which the customers repeat the key 1.\<close>

definition repeated_customer :: "string \<rightharpoonup> nat list" where
  "repeated_customer =
     [''customers'' \<mapsto> [1, 2, 1], ''products'' \<mapsto> [1], ''orders'' \<mapsto> [1],
      ''order_items'' \<mapsto> [1], ''reviews'' \<mapsto> [1]]"

text \<open>Files in which the second customer has the key \<open>2^63\<close>.\<close>

definition oversized_customer :: "string \<rightharpoonup> nat list" where
  "oversized_customer =
     [''customers'' \<mapsto> [1, 9223372036854775808], ''products'' \<mapsto> [1], ''orders'' \<mapsto> [1],
      ''order_items'' \<mapsto> [1], ''reviews'' \<mapsto> [1]]"

text \<open>Files that load, an engine that takes every row, and the database after the load.\<close>

definition sound_files :: "string \<rightharpoonup> nat list" where
  "sound_files =
     [''customers'' \<mapsto> [1, 2], ''products'' \<mapsto> [1], ''orders'' \<mapsto> [1],
      ''order_items'' \<mapsto> [1, 2], ''reviews'' \<mapsto> [1]]"

definition takes_all :: "nat engine" where
  "takes_all contents table row = None"

definition loaded_database :: "nat database" where
  "loaded_database =
     \<lparr>committed = (\<lambda>table. [])
        (''customers'' := [1, 2], ''products'' := [1], ''orders'' := [1],
         ''order_items'' := [1, 2], ''reviews'' := [1]),
      txn = None\<rparr>"

text \<open>The connection with the first customer inserted and not committed.\<close>

definition customer_pending :: "nat database" where
  "customer_pending =
     \<lparr>committed = (\<lambda>table. []), txn = Some ((\<lambda>table. [])(''customers'' := [1]))\<rparr>"

section \<open>Properties of the library model\<close>

lemma bindE_Inr_iff:
  "bindE m f = Inr y \<longleftrightarrow> (\<exists>x. m = Inr x \<and> f x = Inr y)"
  by (cases m) (simp_all add: bindE_def)

lemma bindE_Inl_iff:
  "bindE m f = Inl e \<longleftrightarrow> m = Inl e \<or> (\<exists>x. m = Inr x \<and> f x = Inl e)"
  by (cases m) (simp_all add: bindE_def)

lemma fake_call_frame:
  "fake_call p fake = (v, fake') \<Longrightarrow>
     providers fake' = providers fake \<and> unique_seen fake' = unique_seen fake"
  by (auto simp: fake_call_def)

lemma date_between_dates_range:
  "date_between_dates fake a b = Inr (d, fake') \<Longrightarrow>
     a \<le> d \<and> d \<le> b \<and> providers fake' = providers fake \<and> unique_seen fake' = unique_seen fake"
proof -
  assume h: "date_between_dates fake a b = Inr (d, fake')"
  then have ab: "a \<le> b"
    by (auto simp: date_between_dates_def split: if_splits)
  define n where "n = nat (b - a + 1)"
  define r where "r = shd (frandom fake) mod n"
  have npos: "0 < n" using ab by (simp add: n_def)
  then have "r < n" by (simp add: r_def)
  then have "int r \<le> b - a" by (simp add: n_def)
  moreover have "d = a + int r"
    using h ab by (auto simp: date_between_dates_def r_def n_def)
  moreover have "providers fake' = providers fake \<and> unique_seen fake' = unique_seen fake"
    using h ab by (auto simp: date_between_dates_def)
  ultimately show ?thesis by simp
qed

lemma date_between_dates_ok:
  "a \<le> b \<Longrightarrow> \<exists>d fake'. date_between_dates fake a b = Inr (d, fake')"
  by (simp add: date_between_dates_def)

lemma unique_retry_Inr:
  "unique_retry n retval fake = Inr (v, fake') \<Longrightarrow>
     v \<notin> unique_seen fake \<and> unique_seen fake' = insert v (unique_seen fake) \<and>
     providers fake' = providers fake"
proof (induction n arbitrary: retval fake)
  case 0
  then show ?case by simp
next
  case (Suc n)
  obtain w fk where call: "fake_call Email fake = (w, fk)"
    by (cases "fake_call Email fake")
  have fr: "providers fk = providers fake" "unique_seen fk = unique_seen fake"
    using fake_call_frame [OF call] by simp_all
  have "(\<exists>u. retval = Some u \<and> u \<notin> unique_seen fake) \<or>
        unique_retry (Suc n) retval fake = unique_retry n (Some w) fk"
    using call by (cases retval) simp_all
  then consider (stop) u where "retval = Some u" "u \<notin> unique_seen fake"
    | (again) "unique_retry (Suc n) retval fake = unique_retry n (Some w) fk"
    by blast
  then show ?case
  proof cases
    case stop
    with Suc.prems show ?thesis by auto
  next
    case again
    with Suc.prems have "unique_retry n (Some w) fk = Inr (v, fake')" by simp
    from Suc.IH [OF this] fr show ?thesis by simp
  qed
qed

lemma unique_retry_Inl:
  "unique_retry n retval fake = Inl e \<Longrightarrow> e = UniquenessException"
proof (induction n arbitrary: retval fake)
  case 0
  then show ?case by simp
next
  case (Suc n)
  obtain w fk where call: "fake_call Email fake = (w, fk)"
    by (cases "fake_call Email fake")
  have "(\<exists>u. retval = Some u \<and> u \<notin> unique_seen fake) \<or>
        unique_retry (Suc n) retval fake = unique_retry n (Some w) fk"
    using call by (cases retval) simp_all
  then consider (stop) u where "retval = Some u" "u \<notin> unique_seen fake"
    | (again) "unique_retry (Suc n) retval fake = unique_retry n (Some w) fk"
    by blast
  then show ?case
  proof cases
    case stop
    with Suc.prems show ?thesis by auto
  next
    case again
    with Suc.prems have "unique_retry n (Some w) fk = Inl e" by simp
    from Suc.IH [OF this] show ?thesis .
  qed
qed

lemma unique_retry_range:
  "unique_retry n retval fake = Inr (v, fake') \<Longrightarrow>
     retval = Some v \<or> v \<in> range (providers fake Email)"
proof (induction n arbitrary: retval fake)
  case 0
  then show ?case by simp
next
  case (Suc n)
  obtain w fk where call: "fake_call Email fake = (w, fk)"
    by (cases "fake_call Email fake")
  have fr: "providers fk = providers fake" and w: "w \<in> range (providers fake Email)"
    using call by (auto simp: fake_call_def)
  have "(\<exists>u. retval = Some u \<and> u \<notin> unique_seen fake) \<or>
        unique_retry (Suc n) retval fake = unique_retry n (Some w) fk"
    using call by (cases retval) simp_all
  then consider (stop) u where "retval = Some u" "u \<notin> unique_seen fake"
    | (again) "unique_retry (Suc n) retval fake = unique_retry n (Some w) fk"
    by blast
  then show ?case
  proof cases
    case stop
    with Suc.prems show ?thesis by auto
  next
    case again
    with Suc.prems have "unique_retry n (Some w) fk = Inr (v, fake')" by simp
    from Suc.IH [OF this] fr w show ?thesis by auto
  qed
qed

lemma unique_email_Inr:
  "unique_email fake = Inr (v, fake') \<Longrightarrow>
     v \<notin> unique_seen fake \<and> unique_seen fake' = insert v (unique_seen fake) \<and>
     providers fake' = providers fake \<and> v \<in> range (providers fake Email)"
  using unique_retry_Inr [of UNIQUENESS_MAX_RETRIES None fake v fake']
    unique_retry_range [of UNIQUENESS_MAX_RETRIES None fake v fake']
  by (simp add: unique_email_def)

lemma unique_email_Inl: "unique_email fake = Inl e \<Longrightarrow> e = UniquenessException"
  unfolding unique_email_def by (rule unique_retry_Inl)

lemma date_between_dates_Inl:
  "date_between_dates fake a b = Inl e \<Longrightarrow> b < a \<and> e = ValueError"
  by (auto simp: date_between_dates_def split: if_splits)

lemma make_customer_Inr:
  assumes "make_customer cid fake = Inr (c, fake')"
  shows "customer_id c = cid \<and> email c \<notin> unique_seen fake \<and>
         unique_seen fake' = insert (email c) (unique_seen fake) \<and>
         providers fake' = providers fake \<and> email c \<in> range (providers fake Email)"
  using assms unfolding make_customer_def bindE_def
  by (auto split: sum.splits prod.splits
      dest!: fake_call_frame date_between_dates_range unique_email_Inr)

lemma make_customer_Inl:
  assumes "make_customer cid fake = Inl e"
  shows "e = UniquenessException"
  using assms unfolding make_customer_def bindE_def
  by (auto split: sum.splits prod.splits
      simp: REGISTRATION_START_def DATA_END_DATE_def
      dest!: date_between_dates_Inl unique_email_Inl)

lemma for_each_length:
  "for_each body ids s = Inr (rows, s') \<Longrightarrow> length rows = length ids"
  by (induction ids arbitrary: s rows) (auto split: sum.splits prod.splits)

lemma for_each_all2:
  assumes "\<And>i s a s'. body i s = Inr (a, s') \<Longrightarrow> P i a"
  shows "for_each body ids s = Inr (rows, s') \<Longrightarrow> list_all2 P ids rows"
  by (induction ids arbitrary: s rows) (auto split: sum.splits prod.splits dest: assms)

lemma for_each_Inl:
  assumes "\<And>i s e. body i s = Inl e \<Longrightarrow> Q e"
  shows "for_each body ids s = Inl e \<Longrightarrow> Q e"
  by (induction ids arbitrary: s) (auto split: sum.splits prod.splits dest: assms)

lemma customers_loop_emails:
  "for_each make_customer ids fake = Inr (cs, fake') \<Longrightarrow>
     distinct (map email cs) \<and>
     set (map email cs) \<inter> unique_seen fake = {} \<and>
     unique_seen fake' = unique_seen fake \<union> set (map email cs) \<and>
     providers fake' = providers fake \<and>
     set (map email cs) \<subseteq> range (providers fake Email)"
proof (induction ids arbitrary: fake cs)
  case Nil
  then show ?case by simp
next
  case (Cons i ids)
  from Cons.prems obtain c f1 cs' where
    step: "make_customer i fake = Inr (c, f1)" and
    rest: "for_each make_customer ids f1 = Inr (cs', fake')" and
    cs: "cs = c # cs'"
    by (auto split: sum.splits prod.splits)
  note a = make_customer_Inr [OF step]
  note b = Cons.IH [OF rest]
  from a b show ?case unfolding cs by auto
qed

lemma generate_customers_dichotomy:
  "generate_customers fake count = Inl UniquenessException \<or>
   (\<exists>cs fake'. generate_customers fake count = Inr (cs, fake') \<and>
      int (length cs) = max 0 count \<and>
      map customer_id cs = [1..count] \<and>
      distinct (map email cs))"
proof (cases "generate_customers fake count")
  case (Inl e)
  then have "e = UniquenessException"
    unfolding generate_customers_def
    by (rule for_each_Inl [where Q = "\<lambda>e. e = UniquenessException", rotated]) (rule make_customer_Inl)
  with Inl show ?thesis by simp
next
  case (Inr r)
  obtain cs fake' where r: "r = (cs, fake')" by (cases r)
  have run: "for_each make_customer [1..count] fake = Inr (cs, fake')"
    using Inr r by (simp add: generate_customers_def)
  have "length cs = length [1..count]" by (rule for_each_length [OF run])
  then have len: "int (length cs) = max 0 count" by simp
  have "list_all2 (\<lambda>i c. customer_id c = i) [1..count] cs"
    by (rule for_each_all2 [OF _ run]) (simp add: make_customer_Inr)
  then have ids: "map customer_id cs = [1..count]"
    by (induction rule: list_all2_induct) simp_all
  from customers_loop_emails [OF run] len ids Inr r show ?thesis by simp
qed

lemma unique_retry_pos:
  "0 < n \<Longrightarrow> unique_retry n retval fake =
     (case retval of
        Some v \<Rightarrow>
          if v \<notin> unique_seen fake
          then Inr (v, fake\<lparr>unique_seen := insert v (unique_seen fake)\<rparr>)
          else (case fake_call Email fake of (v', fake') \<Rightarrow> unique_retry (n - 1) (Some v') fake')
      | None \<Rightarrow> (case fake_call Email fake of (v', fake') \<Rightarrow> unique_retry (n - 1) (Some v') fake'))"
  by (cases n) (auto split: option.splits)

lemma customers_exhausted:
  assumes fin: "finite (range (providers fake Email))"
    and few: "card (range (providers fake Email)) < nat count"
  shows "generate_customers fake count = Inl UniquenessException"
proof -
  have "\<not> (\<exists>cs fake'. generate_customers fake count = Inr (cs, fake'))"
  proof
    assume "\<exists>cs fake'. generate_customers fake count = Inr (cs, fake')"
    then obtain cs fake' where run: "for_each make_customer [1..count] fake = Inr (cs, fake')"
      by (auto simp: generate_customers_def)
    note e = customers_loop_emails [OF run]
    have "length cs = length [1..count]" by (rule for_each_length [OF run])
    then have "nat count = length (map email cs)" by simp
    also have "\<dots> = card (set (map email cs))"
      using e distinct_card [of "map email cs"] by simp
    also have "\<dots> \<le> card (range (providers fake Email))"
      using e fin by (intro card_mono) auto
    finally show False using few by simp
  qed
  with generate_customers_dichotomy [of fake count] show ?thesis by blast
qed

text \<open>
  C8. A call of \<open>generate_customers\<close> either raises \<open>UniquenessException\<close> or returns
  exactly the requested number of customers, whose emails are pairwise distinct:
  there is no third outcome in which fewer rows or repeated emails are returned.
  When the email provider can deliver fewer distinct values than customers are
  asked for, the call raises \<open>UniquenessException\<close>.
\<close>

theorem generate_customers_emails_unique:
  "(generate_customers fake count = Inl UniquenessException \<or>
    (\<exists>cs fake'. generate_customers fake count = Inr (cs, fake') \<and>
       int (length cs) = max 0 count \<and> distinct (map email cs))) \<and>
   (finite (range (providers fake Email)) \<and>
    card (range (providers fake Email)) < nat count \<longrightarrow>
      generate_customers fake count = Inl UniquenessException)"
  using generate_customers_dichotomy [of fake count] customers_exhausted [of fake count]
  by blast

theorem generate_customers_emails_unique_witness:
  "finite (range (providers \<lparr>providers = (\<lambda>p n. ''a@x.org''), frandom = sconst 0,
                              unique_seen = {}\<rparr> Email)) \<and>
   card (range (providers \<lparr>providers = (\<lambda>p n. ''a@x.org''), frandom = sconst 0,
                            unique_seen = {}\<rparr> Email)) < nat 2 \<and>
   generate_customers \<lparr>providers = (\<lambda>p n. ''a@x.org''), frandom = sconst 0,
                       unique_seen = {}\<rparr> 2 = Inl UniquenessException"
  using generate_customers_emails_unique
    [of "\<lparr>providers = (\<lambda>p n. ''a@x.org''), frandom = sconst 0, unique_seen = {}\<rparr>" 2]
  by simp

section \<open>Properties of generate_order_items\<close>

lemma random_choice_Inr:
  "random_choice xs g = Inr (x, g') \<Longrightarrow> x \<in> set xs"
  by (auto simp: random_choice_def split: if_splits)

lemma random_choice_ok:
  "xs \<noteq> [] \<Longrightarrow> \<exists>x g'. random_choice xs g = Inr (x, g')"
  by (simp add: random_choice_def)

lemma random_randint_Inr:
  "random_randint a b g = Inr (x, g') \<Longrightarrow> a \<le> x \<and> x \<le> b"
proof -
  assume h: "random_randint a b g = Inr (x, g')"
  then have ab: "a \<le> b" by (auto simp: random_randint_def split: if_splits)
  define n where "n = nat (b - a + 1)"
  have "0 < n" using ab by (simp add: n_def)
  then have "shd g mod n < n" by simp
  then have "int (shd g mod n) \<le> b - a" by (simp add: n_def)
  moreover have "x = a + int (shd g mod n)"
    using h ab by (auto simp: random_randint_def n_def)
  ultimately show ?thesis by simp
qed

lemma random_randint_ok:
  "a \<le> b \<Longrightarrow> \<exists>x g'. random_randint a b g = Inr (x, g')"
  by (simp add: random_randint_def)

lemma loc_distinct:
  assumes "distinct (map key df)" and "r \<in> set df"
  shows "loc key df (key r) = Row r"
proof -
  have "filter (\<lambda>q. key q = key r) df = [r]"
    using assms
  proof (induction df)
    case Nil
    then show ?case by simp
  next
    case (Cons a df)
    show ?case
    proof (cases "a = r")
      case True
      with Cons.prems have "\<forall>q\<in>set df. key q \<noteq> key r" by (auto simp: image_iff)
      then have "filter (\<lambda>q. key q = key r) df = []" by (simp add: filter_empty_conv)
      with True show ?thesis by simp
    next
      case False
      with Cons.prems have "r \<in> set df" "key a \<noteq> key r" "distinct (map key df)"
        by (auto simp: image_iff)
      with Cons.IH show ?thesis by simp
    qed
  qed
  then show ?thesis by (simp add: loc_def)
qed

lemma loc_Row:
  "loc key df k = Row r \<Longrightarrow> r \<in> set df \<and> key r = k"
proof -
  assume h: "loc key df k = Row r"
  then have "filter (\<lambda>q. key q = k) df = [r]"
    by (auto simp: loc_def split: list.splits)
  then have "r \<in> set (filter (\<lambda>q. key q = k) df)" by simp
  then show ?thesis by simp
qed

lemma build_item_Inr:
  assumes "build_item F products_df rid oid (g, m) = Inr (item, (g', m'))"
  shows "order_item_id item = rid \<and> oi_order_id item = oid \<and>
         oi_product_id item \<in> set (map product_id products_df) \<and>
         1 \<le> quantity item \<and> quantity item \<le> 5 \<and>
         subtotal item = py_round2 F (fscale F (quantity item) (unit_price item)) \<and>
         (\<exists>t. m oid = Some t \<and> m' = m(oid \<mapsto> fadd F t (subtotal item)))"
  using assms unfolding build_item_def bindE_def
  by (auto split: sum.splits prod.splits option.splits loc_result.splits
      dest!: random_choice_Inr random_randint_Inr)

lemma build_item_ok:
  assumes "products_df \<noteq> []" and "distinct (map product_id products_df)" and "m oid = Some t"
  shows "\<exists>item g' m'. build_item F products_df rid oid (g, m) = Inr (item, (g', m'))"
proof -
  from assms(1) obtain pid g1 where
    c: "random_choice (map product_id products_df) g = Inr (pid, g1)"
    using random_choice_ok [of "map product_id products_df" g] by auto
  from random_choice_Inr [OF c] obtain p where p: "p \<in> set products_df" "pid = product_id p"
    by auto
  have l: "loc product_id products_df pid = Row p"
    using loc_distinct [OF assms(2) p(1)] p(2) by simp
  obtain q g2 where r: "random_randint 1 5 g1 = Inr (q, g2)"
    using random_randint_ok [of 1 5 g1] by auto
  show ?thesis
    by (simp add: build_item_def bindE_def c l r assms(3))
qed

lemma build_item_totals:
  assumes b: "build_item F products_df rid oid (g, m) = Inr (item, (g', m'))"
    and a: "totals_agree F m prev"
  shows "totals_agree F m' (prev @ [item]) \<and> dom m' = dom m"
proof -
  from build_item_Inr [OF b] obtain t where
    o: "oi_order_id item = oid" and t: "m oid = Some t" and
    m': "m' = m(oid \<mapsto> fadd F t (subtotal item))" by blast
  have "t = fsum F (map subtotal (items_of_order prev oid))"
    using a t by (simp add: totals_agree_def)
  then have "fadd F t (subtotal item) = fsum F (map subtotal (items_of_order (prev @ [item]) oid))"
    using o by (simp add: fsum_def items_of_order_def)
  moreover have "\<And>k. k \<noteq> oid \<Longrightarrow> items_of_order (prev @ [item]) k = items_of_order prev k"
    using o by (simp add: items_of_order_def)
  ultimately have "totals_agree F m' (prev @ [item])"
    using a unfolding totals_agree_def m' by auto
  moreover have "dom m' = dom m" using t unfolding m' by auto
  ultimately show ?thesis by simp
qed

lemma seed_item_Inr:
  assumes "seed_item F products_df oid (rid, s) = Inr (item, (rid', s'))"
  shows "build_item F products_df rid oid s = Inr (item, s') \<and> rid' = rid + 1"
  using assms unfolding seed_item_def bindE_def
  by (auto split: sum.splits prod.splits)

lemma seed_loop:
  assumes "for_each (seed_item F products_df) oids (rid, (g, m)) = Inr (seeds, (rid', (g', m')))"
    and "totals_agree F m prev"
  shows "map oi_order_id seeds = oids \<and> rid' = rid + int (length oids) \<and>
         map order_item_id seeds = [rid..rid' - 1] \<and>
         dom m' = dom m \<and> totals_agree F m' (prev @ seeds)"
  using assms
proof (induction oids arbitrary: rid g m seeds prev)
  case Nil
  then show ?case by simp
next
  case (Cons oid oids)
  from Cons.prems(1) obtain item r1 g1 m1 rest where
    step: "seed_item F products_df oid (rid, (g, m)) = Inr (item, (r1, (g1, m1)))" and
    loop: "for_each (seed_item F products_df) oids (r1, (g1, m1)) = Inr (rest, (rid', (g', m')))" and
    seeds: "seeds = item # rest"
    by (auto split: sum.splits prod.splits)
  from seed_item_Inr [OF step] have
    b: "build_item F products_df rid oid (g, m) = Inr (item, (g1, m1))" and r1: "r1 = rid + 1"
    by simp_all
  note i = build_item_Inr [OF b]
  note t = build_item_totals [OF b Cons.prems(2)]
  from t have agree1: "totals_agree F m1 (prev @ [item])" by simp
  note ih = Cons.IH [OF loop agree1]
  have ids: "[rid..rid' - 1] = rid # [rid + 1..rid' - 1]"
    using ih r1 by (simp add: upto_rec1)
  from ih i t show ?case unfolding seeds r1 [symmetric]
    using ids r1 by simp
qed

lemma seed_loop_ok:
  assumes "products_df \<noteq> []" and "distinct (map product_id products_df)"
    and "set oids \<subseteq> dom m"
  shows "\<exists>seeds r. for_each (seed_item F products_df) oids (rid, (g, m)) = Inr (seeds, r)"
  using assms(3)
proof (induction oids arbitrary: rid g m)
  case Nil
  then show ?case by simp
next
  case (Cons oid oids)
  from Cons.prems obtain t where t: "m oid = Some t" by auto
  from build_item_ok [of products_df m oid t F rid g] assms(1,2) t obtain item g1 m1 where
    b: "build_item F products_df rid oid (g, m) = Inr (item, (g1, m1))" by blast
  from build_item_Inr [OF b] obtain t' where
    "m oid = Some t'" and "m1 = m(oid \<mapsto> fadd F t' (subtotal item))" by blast
  then have "dom m1 = dom m" by auto
  with Cons.prems have "set oids \<subseteq> dom m1" by simp
  from Cons.IH [OF this] obtain rest r where
    loop: "for_each (seed_item F products_df) oids (rid + 1, (g1, m1)) = Inr (rest, r)" by blast
  have step: "seed_item F products_df oid (rid, (g, m)) = Inr (item, (rid + 1, (g1, m1)))"
    by (simp add: seed_item_def bindE_def b)
  obtain r1 r2 r3 where "r = (r1, r2, r3)" by (cases r) auto
  with loop step show ?case by simp
qed

lemma fill_remaining_done:
  "count < rid \<Longrightarrow> fill_remaining F orders_df products_df count rid s = Inr ([], s)"
  by (simp add: fill_remaining.simps)

lemma fill_remaining_step:
  "rid \<le> count \<Longrightarrow>
   fill_remaining F orders_df products_df count rid (g, m) =
     bindE (random_choice (map order_id orders_df) g) (\<lambda>(random_order_id, rnd1).
       bindE (build_item F products_df rid random_order_id (rnd1, m)) (\<lambda>(item, s').
         bindE (fill_remaining F orders_df products_df count (rid + 1) s')
           (\<lambda>(items, s''). Inr (item # items, s''))))"
  by (subst fill_remaining.simps) simp

lemma fill_loop:
  assumes "fill_remaining F orders_df products_df count rid (g, m) = Inr (extras, (g', m'))"
    and "totals_agree F m prev"
  shows "map order_item_id extras = [rid..count] \<and>
         set (map oi_order_id extras) \<subseteq> set (map order_id orders_df) \<and>
         dom m' = dom m \<and> totals_agree F m' (prev @ extras)"
  using assms
proof (induction "nat (count + 1 - rid)" arbitrary: rid g m extras prev)
  case 0
  then have "count < rid" by simp
  with "0.prems" show ?case by (simp add: fill_remaining_done)
next
  case (Suc n)
  then have le: "rid \<le> count" by simp
  from Suc.prems(1) obtain oid g1 item g2 m2 rest where
    c: "random_choice (map order_id orders_df) g = Inr (oid, g1)" and
    b: "build_item F products_df rid oid (g1, m) = Inr (item, (g2, m2))" and
    loop: "fill_remaining F orders_df products_df count (rid + 1) (g2, m2) = Inr (rest, (g', m'))" and
    extras: "extras = item # rest"
    unfolding fill_remaining_step [OF le] bindE_def
    by (auto split: sum.splits prod.splits)
  note i = build_item_Inr [OF b]
  note t = build_item_totals [OF b Suc.prems(2)]
  have n: "n = nat (count + 1 - (rid + 1))" using Suc.hyps(2) by simp
  from t have agree1: "totals_agree F m2 (prev @ [item])" by simp
  note ih = Suc.hyps(1) [OF n loop agree1]
  have ids: "[rid..count] = rid # [rid + 1..count]"
    using le by (simp add: upto_rec1)
  from random_choice_Inr [OF c] have "oid \<in> set (map order_id orders_df)" .
  with ih i t show ?case unfolding extras ids by simp
qed

lemma fill_loop_ok:
  assumes "products_df \<noteq> []" and "distinct (map product_id products_df)"
    and "orders_df \<noteq> []" and "set (map order_id orders_df) \<subseteq> dom m"
  shows "\<exists>extras r. fill_remaining F orders_df products_df count rid (g, m) = Inr (extras, r)"
  using assms(4)
proof (induction "nat (count + 1 - rid)" arbitrary: rid g m)
  case 0
  then have "count < rid" by simp
  then show ?case by (simp add: fill_remaining_done)
next
  case (Suc n)
  then have le: "rid \<le> count" by simp
  from assms(3) obtain oid g1 where
    c: "random_choice (map order_id orders_df) g = Inr (oid, g1)"
    using random_choice_ok [of "map order_id orders_df" g] by auto
  from random_choice_Inr [OF c] Suc.prems obtain t where t: "m oid = Some t" by auto
  from build_item_ok [of products_df m oid t F rid g1] assms(1,2) t obtain item g2 m2 where
    b: "build_item F products_df rid oid (g1, m) = Inr (item, (g2, m2))" by blast
  from build_item_Inr [OF b] obtain t' where
    "m oid = Some t'" and "m2 = m(oid \<mapsto> fadd F t' (subtotal item))" by blast
  then have "dom m2 = dom m" by auto
  with Suc.prems have sub: "set (map order_id orders_df) \<subseteq> dom m2" by simp
  have n: "n = nat (count + 1 - (rid + 1))" using Suc.hyps(2) by simp
  from Suc.hyps(1) [OF n sub] obtain rest r where
    "fill_remaining F orders_df products_df count (rid + 1) (g2, m2) = Inr (rest, r)" by blast
  then show ?case
    unfolding fill_remaining_step [OF le] by (simp add: bindE_def c b)
qed

lemma initial_totals_dom:
  "dom (foldl (\<lambda>m oid. m(oid \<mapsto> z)) m0 oids) = dom m0 \<union> set oids"
  by (induction oids arbitrary: m0) auto

lemma initial_totals_val:
  "foldl (\<lambda>m oid. m(oid \<mapsto> z)) m0 oids k = Some t \<Longrightarrow> t = z \<or> m0 k = Some t"
proof (induction oids arbitrary: m0)
  case Nil
  then show ?case by simp
next
  case (Cons a oids)
  from Cons.IH [of "m0(a \<mapsto> z)"] Cons.prems
  have "t = z \<or> (m0(a \<mapsto> z)) k = Some t" by simp
  then show ?case by (auto split: if_splits)
qed

lemma initial_totals_agree:
  "dom (initial_totals F orders_df) = set (map order_id orders_df) \<and>
   totals_agree F (initial_totals F orders_df) []"
  using initial_totals_dom [of "fzero F" Map.empty "map order_id orders_df"]
    initial_totals_val [of "fzero F" Map.empty "map order_id orders_df"]
  by (auto simp: initial_totals_def totals_agree_def fsum_def items_of_order_def)

lemma write_totals_agree:
  assumes "dom m = set (map order_id orders_df)" and "totals_agree F m items"
  shows "write_totals F m orders_df =
         map (\<lambda>row. row\<lparr>total_amount :=
                np_round2 F (fsum F (map subtotal (items_of_order items (order_id row))))\<rparr>)
           orders_df"
proof -
  have "\<And>row. row \<in> set orders_df \<Longrightarrow>
          (case m (order_id row) of Some t \<Rightarrow> t | None \<Rightarrow> fnan F)
            = fsum F (map subtotal (items_of_order items (order_id row)))"
  proof -
    fix row assume "row \<in> set orders_df"
    then have "order_id row \<in> dom m" using assms(1) by auto
    then obtain t where t: "m (order_id row) = Some t" by auto
    with assms(2) have "t = fsum F (map subtotal (items_of_order items (order_id row)))"
      by (simp add: totals_agree_def)
    with t show "(case m (order_id row) of Some t \<Rightarrow> t | None \<Rightarrow> fnan F)
            = fsum F (map subtotal (items_of_order items (order_id row)))" by simp
  qed
  then show ?thesis by (simp add: write_totals_def)
qed

lemma generate_order_items_result:
  assumes "generate_order_items F rnd orders_df products_df count = Inr (items, orders', rnd')"
  shows "products_df \<noteq> [] \<and> orders_df \<noteq> [] \<and>
         map oi_order_id (take (length orders_df) items) = map order_id orders_df \<and>
         map order_item_id items = [1..max count (int (length orders_df))] \<and>
         set (map oi_order_id items) = set (map order_id orders_df) \<and>
         orders' = map (\<lambda>row. row\<lparr>total_amount :=
                     np_round2 F (fsum F (map subtotal (items_of_order items (order_id row))))\<rparr>)
                   orders_df"
proof -
  from assms have ne: "products_df \<noteq> []" "orders_df \<noteq> []"
    by (auto simp: generate_order_items_def split: if_splits)
  from assms ne obtain seeds rid g1 m1 extras m2 where
    s: "for_each (seed_item F products_df) (map order_id orders_df)
          (1, (rnd, initial_totals F orders_df)) = Inr (seeds, (rid, (g1, m1)))" and
    f: "fill_remaining F orders_df products_df count rid (g1, m1) = Inr (extras, (rnd', m2))" and
    items: "items = seeds @ extras" and
    orders': "orders' = write_totals F m2 orders_df"
    unfolding generate_order_items_def bindE_def
    by (auto split: sum.splits prod.splits)
  note init = initial_totals_agree [of F orders_df]
  from init have a0: "totals_agree F (initial_totals F orders_df) []" by simp
  note sl = seed_loop [OF s a0]
  from sl have a1: "totals_agree F m1 ([] @ seeds)" by simp
  note fl = fill_loop [OF f a1]
  have len: "length seeds = length orders_df"
    using sl by (metis length_map)
  have rid: "rid = 1 + int (length orders_df)" using sl by simp
  have dom2: "dom m2 = set (map order_id orders_df)" using fl sl init by simp
  have agree2: "totals_agree F m2 items" using fl items by simp
  have seeds_first: "map oi_order_id (take (length orders_df) items) = map order_id orders_df"
    using sl len items by simp
  have ids: "map order_item_id items = [1..max count (int (length orders_df))]"
  proof (cases "rid \<le> count")
    case True
    have "[1..count] = [1..rid - 1] @ [rid..count]"
      using True rid by (intro upto_split1) auto
    with sl fl items True rid show ?thesis by (simp add: max_def)
  next
    case False
    then have "[rid..count] = []" by simp
    with sl fl items False rid show ?thesis by (simp add: max_def)
  qed
  have cover: "set (map oi_order_id items) = set (map order_id orders_df)"
  proof -
    have "set (map oi_order_id seeds) = set (map order_id orders_df)" using sl by simp
    moreover have "set (map oi_order_id extras) \<subseteq> set (map order_id orders_df)" using fl by simp
    ultimately show ?thesis unfolding items by auto
  qed
  from write_totals_agree [OF dom2 agree2] orders' ne seeds_first ids cover
  show ?thesis by simp
qed

lemma generate_order_items_ok:
  assumes "products_df \<noteq> []" and "distinct (map product_id products_df)"
    and "orders_df \<noteq> []"
  shows "\<exists>items orders' rnd'.
           generate_order_items F rnd orders_df products_df count = Inr (items, orders', rnd')"
proof -
  note init = initial_totals_agree [of F orders_df]
  from init have sub0: "set (map order_id orders_df) \<subseteq> dom (initial_totals F orders_df)" by simp
  from seed_loop_ok [OF assms(1,2) sub0] obtain seeds r where
    s0: "for_each (seed_item F products_df) (map order_id orders_df)
          (1, (rnd, initial_totals F orders_df)) = Inr (seeds, r)" by blast
  obtain rid g1 m1 where r: "r = (rid, (g1, m1))" by (cases r) auto
  note s = s0 [unfolded r]
  from init have a0: "totals_agree F (initial_totals F orders_df) []" by simp
  from seed_loop [OF s a0] init have sub1: "set (map order_id orders_df) \<subseteq> dom m1" by simp
  from fill_loop_ok [OF assms(1,2,3) sub1] obtain extras r' where
    f0: "fill_remaining F orders_df products_df count rid (g1, m1) = Inr (extras, r')" by blast
  obtain g2 m2 where r': "r' = (g2, m2)" by (cases r')
  show ?thesis
    using assms(1,3) s f0 r'
    by (simp add: generate_order_items_def bindE_def)
qed

section \<open>Example runs of generate_order_items\<close>

lemmas order_items_eval =
  generate_order_items_def initial_totals_def seed_item_def build_item_def bindE_def
  random_choice_def random_randint_def loc_def write_totals_def fill_remaining.simps
  cents_def two_products_def five_orders_def two_orders_def new_order_def example_draws_def

lemma example_run:
  "generate_order_items cents example_draws two_orders two_products 4 =
     Inr (example_items, example_orders, sconst 0)"
  by (simp add: order_items_eval example_items_def example_orders_def)

section \<open>C1: a target count below the number of orders\<close>

text \<open>
  C1, as stated, fails: with five orders and a target count of 3,
  \<open>generate_order_items\<close> raises nothing and returns five items, one per order.
\<close>

theorem target_below_orders_counterexample:
  "generate_order_items cents (sconst 0) five_orders two_products 3 =
     Inr ([\<lparr>order_item_id = 1, oi_order_id = 1, oi_product_id = 1,
             quantity = 1, unit_price = 1999, subtotal = 1999\<rparr>,
           \<lparr>order_item_id = 2, oi_order_id = 2, oi_product_id = 1,
             quantity = 1, unit_price = 1999, subtotal = 1999\<rparr>,
           \<lparr>order_item_id = 3, oi_order_id = 3, oi_product_id = 1,
             quantity = 1, unit_price = 1999, subtotal = 1999\<rparr>,
           \<lparr>order_item_id = 4, oi_order_id = 4, oi_product_id = 1,
             quantity = 1, unit_price = 1999, subtotal = 1999\<rparr>,
           \<lparr>order_item_id = 5, oi_order_id = 5, oi_product_id = 1,
             quantity = 1, unit_price = 1999, subtotal = 1999\<rparr>],
          [\<lparr>order_id = 1, o_customer_id = 11, order_date = 739001,
             total_amount = 1999, status = ''Pending'', payment_method = ''PayPal''\<rparr>,
           \<lparr>order_id = 2, o_customer_id = 12, order_date = 739002,
             total_amount = 1999, status = ''Pending'', payment_method = ''PayPal''\<rparr>,
           \<lparr>order_id = 3, o_customer_id = 13, order_date = 739003,
             total_amount = 1999, status = ''Pending'', payment_method = ''PayPal''\<rparr>,
           \<lparr>order_id = 4, o_customer_id = 14, order_date = 739004,
             total_amount = 1999, status = ''Pending'', payment_method = ''PayPal''\<rparr>,
           \<lparr>order_id = 5, o_customer_id = 15, order_date = 739005,
             total_amount = 1999, status = ''Pending'', payment_method = ''PayPal''\<rparr>],
          sconst 0)"
  by (simp add: order_items_eval)

text \<open>
  C1, amended. The target count is not checked: when it is below the number of
  orders, a call on a non-empty order frame and a non-empty product frame with
  distinct product ids raises nothing and returns exactly one item per order, in
  the row order of the orders, so more items than the target.
\<close>

theorem target_below_orders_one_item_per_order:
  assumes "products_df \<noteq> []" and "distinct (map product_id products_df)"
    and "orders_df \<noteq> []" and "count < int (length orders_df)"
  shows "\<exists>items orders' rnd'.
           generate_order_items F rnd orders_df products_df count = Inr (items, orders', rnd') \<and>
           length items = length orders_df \<and>
           count < int (length items) \<and>
           map oi_order_id items = map order_id orders_df"
proof -
  from generate_order_items_ok [OF assms(1,2,3)] obtain items orders' rnd' where
    run: "generate_order_items F rnd orders_df products_df count = Inr (items, orders', rnd')"
    by blast
  note r = generate_order_items_result [OF run]
  have "length (map order_item_id items) = length [1..max count (int (length orders_df))]"
    using r by simp
  then have len: "length items = length orders_df" using assms(4) by (simp add: max_def)
  from r have "map oi_order_id (take (length orders_df) items) = map order_id orders_df"
    by simp
  with len have "map oi_order_id items = map order_id orders_df" by simp
  with run len assms(4) show ?thesis by simp
qed

theorem target_below_orders_one_item_per_order_witness:
  "two_products \<noteq> [] \<and> distinct (map product_id two_products) \<and> five_orders \<noteq> [] \<and>
   3 < int (length five_orders) \<and>
   (\<exists>items orders' rnd'.
      generate_order_items cents (sconst 0) five_orders two_products 3
        = Inr (items, orders', rnd') \<and>
      length items = length five_orders \<and>
      3 < int (length items) \<and>
      map oi_order_id items = map order_id five_orders)"
proof -
  have h: "two_products \<noteq> []" "distinct (map product_id two_products)" "five_orders \<noteq> []"
    "3 < int (length five_orders)"
    by (simp_all add: two_products_def five_orders_def)
  from target_below_orders_one_item_per_order [OF h, of cents "sconst 0"] h
  show ?thesis by blast
qed

section \<open>C2: the written totals\<close>

text \<open>
  C2. When \<open>generate_order_items\<close> returns, the order frame it leaves is the frame it
  was given with each \<open>total_amount\<close> replaced, once, by the rounded sum of the
  subtotals of the items of the complete returned item list that reference the
  order; every order has at least one such item. The sum is the float sum from
  \<open>0.0\<close> in the order of generation, the rounding that of \<^verbatim>\<open>Series.round(2)\<close>.
\<close>

theorem order_total_is_sum_of_item_subtotals:
  assumes "generate_order_items F rnd orders_df products_df count = Inr (items, orders', rnd')"
  shows "orders' = map (\<lambda>row. row\<lparr>total_amount :=
                     np_round2 F (fsum F (map subtotal (items_of_order items (order_id row))))\<rparr>)
                   orders_df \<and>
         (\<forall>row\<in>set orders'.
            total_amount row =
              np_round2 F (fsum F (map subtotal (items_of_order items (order_id row)))) \<and>
            items_of_order items (order_id row) \<noteq> [])"
proof -
  note r = generate_order_items_result [OF assms]
  from r have eq: "orders' = map (\<lambda>row. row\<lparr>total_amount :=
                     np_round2 F (fsum F (map subtotal (items_of_order items (order_id row))))\<rparr>)
                   orders_df" by simp
  have tot: "\<And>row. row \<in> set orders' \<Longrightarrow> total_amount row =
              np_round2 F (fsum F (map subtotal (items_of_order items (order_id row))))"
    by (subst (asm) eq) auto
  have ne: "\<And>row. row \<in> set orders' \<Longrightarrow> items_of_order items (order_id row) \<noteq> []"
  proof -
    fix row assume "row \<in> set orders'"
    then have "order_id row \<in> set (map order_id orders_df)"
      by (subst (asm) eq) auto
    with r have "order_id row \<in> set (map oi_order_id items)" by simp
    then show "items_of_order items (order_id row) \<noteq> []"
      by (auto simp: items_of_order_def filter_empty_conv)
  qed
  from eq tot ne show ?thesis by blast
qed

theorem order_total_is_sum_of_item_subtotals_witness:
  "generate_order_items cents example_draws two_orders two_products 4
     = Inr (example_items, example_orders, sconst 0) \<and>
   map total_amount example_orders = [7996, 5100] \<and>
   list_all (\<lambda>row.
      total_amount row =
        np_round2 cents
          (fsum cents (map subtotal (items_of_order example_items (order_id row)))) \<and>
      items_of_order example_items (order_id row) \<noteq> []) example_orders"
proof (intro conjI)
  show "generate_order_items cents example_draws two_orders two_products 4
     = Inr (example_items, example_orders, sconst 0)" by (rule example_run)
  show "map total_amount example_orders = [7996, 5100]"
    by (simp add: example_orders_def)
  show "list_all (\<lambda>row.
      total_amount row =
        np_round2 cents
          (fsum cents (map subtotal (items_of_order example_items (order_id row)))) \<and>
      items_of_order example_items (order_id row) \<noteq> []) example_orders"
    using order_total_is_sum_of_item_subtotals [OF example_run]
    unfolding list_all_iff by blast
qed

section \<open>C3: one seed item per order first\<close>

text \<open>
  C3. For a non-empty product frame with distinct product ids, an order frame of
  \<open>N \<ge> 1\<close> orders whose ids are \<open>1, \<dots>, N\<close> in row order, and a target count
  \<open>M \<ge> N\<close>, \<open>generate_order_items\<close> returns \<open>M\<close> items; the first \<open>N\<close> of them
  reference the orders \<open>1, \<dots>, N\<close> in this order, one each, so every order id occurs
  in an item; the remaining \<open>M - N\<close> items each reference one of the orders.
\<close>

theorem every_order_gets_a_seed_item_first:
  assumes "products_df \<noteq> []" and "distinct (map product_id products_df)"
    and "orders_df \<noteq> []"
    and "map order_id orders_df = [1..int (length orders_df)]"
    and "int (length orders_df) \<le> count"
  shows "\<exists>items orders' rnd'.
           generate_order_items F rnd orders_df products_df count = Inr (items, orders', rnd') \<and>
           int (length items) = count \<and>
           map oi_order_id (take (length orders_df) items) = [1..int (length orders_df)] \<and>
           (\<forall>row\<in>set orders_df. \<exists>item\<in>set items. oi_order_id item = order_id row) \<and>
           int (length (drop (length orders_df) items)) = count - int (length orders_df) \<and>
           (\<forall>item\<in>set (drop (length orders_df) items).
              \<exists>row\<in>set orders_df. oi_order_id item = order_id row)"
proof -
  from generate_order_items_ok [OF assms(1,2,3)] obtain items orders' rnd' where
    run: "generate_order_items F rnd orders_df products_df count = Inr (items, orders', rnd')"
    by blast
  note r = generate_order_items_result [OF run]
  have "length (map order_item_id items) = length [1..max count (int (length orders_df))]"
    using r by simp
  then have len: "int (length items) = count" using assms(5) by (simp add: max_def)
  from r assms(4) have seeds:
    "map oi_order_id (take (length orders_df) items) = [1..int (length orders_df)]" by simp
  from r have cover: "set (map oi_order_id items) = set (map order_id orders_df)" by simp
  have c1: "\<forall>row\<in>set orders_df. \<exists>item\<in>set items. oi_order_id item = order_id row"
  proof
    fix row assume "row \<in> set orders_df"
    then have "order_id row \<in> set (map oi_order_id items)" using cover by simp
    then show "\<exists>item\<in>set items. oi_order_id item = order_id row" by auto
  qed
  have c2: "\<forall>item\<in>set (drop (length orders_df) items).
              \<exists>row\<in>set orders_df. oi_order_id item = order_id row"
  proof
    fix item assume "item \<in> set (drop (length orders_df) items)"
    then have "item \<in> set items" by (rule in_set_dropD)
    then have "oi_order_id item \<in> set (map order_id orders_df)" using cover by auto
    then show "\<exists>row\<in>set orders_df. oi_order_id item = order_id row" by auto
  qed
  have c3: "int (length (drop (length orders_df) items)) = count - int (length orders_df)"
    using len assms(5) by simp
  from run len seeds c1 c2 c3 show ?thesis by blast
qed

theorem every_order_gets_a_seed_item_first_witness:
  "two_products \<noteq> [] \<and> distinct (map product_id two_products) \<and> two_orders \<noteq> [] \<and>
   map order_id two_orders = [1..int (length two_orders)] \<and>
   int (length two_orders) \<le> 4 \<and>
   (\<exists>items orders' rnd'.
      generate_order_items cents example_draws two_orders two_products 4
        = Inr (items, orders', rnd') \<and>
      int (length items) = 4 \<and>
      map oi_order_id (take (length two_orders) items) = [1..int (length two_orders)] \<and>
      (\<forall>row\<in>set two_orders. \<exists>item\<in>set items. oi_order_id item = order_id row) \<and>
      int (length (drop (length two_orders) items)) = 4 - int (length two_orders) \<and>
      (\<forall>item\<in>set (drop (length two_orders) items).
         \<exists>row\<in>set two_orders. oi_order_id item = order_id row))"
proof -
  have h: "two_products \<noteq> []" "distinct (map product_id two_products)" "two_orders \<noteq> []"
    "map order_id two_orders = [1..int (length two_orders)]" "int (length two_orders) \<le> 4"
    by (simp_all add: two_products_def two_orders_def new_order_def upto_rec1)
  from every_order_gets_a_seed_item_first [OF h, of cents example_draws] h
  show ?thesis by blast
qed

section \<open>C10: the frame of generate_order_items\<close>

text \<open>
  C10. The order frame that \<open>generate_order_items\<close> leaves has the rows of the frame
  it was given, in the same number and order, and each row keeps its \<open>order_id\<close>,
  \<open>customer_id\<close>, \<open>order_date\<close>, \<open>status\<close> and \<open>payment_method\<close>: only
  \<open>total_amount\<close> is written.
\<close>

theorem generate_order_items_changes_only_total_amount:
  assumes "generate_order_items F rnd orders_df products_df count = Inr (items, orders', rnd')"
  shows "length orders' = length orders_df \<and>
         list_all2 (\<lambda>new old. \<exists>t. new = old\<lparr>total_amount := t\<rparr>) orders' orders_df \<and>
         list_all2 (\<lambda>new old.
            order_id new = order_id old \<and> o_customer_id new = o_customer_id old \<and>
            order_date new = order_date old \<and> status new = status old \<and>
            payment_method new = payment_method old) orders' orders_df"
proof -
  note r = generate_order_items_result [OF assms]
  from r have eq: "orders' = map (\<lambda>row. row\<lparr>total_amount :=
                     np_round2 F (fsum F (map subtotal (items_of_order items (order_id row))))\<rparr>)
                   orders_df" by simp
  show ?thesis
    by (subst eq, subst eq, subst eq) (auto simp: list_all2_map1 intro!: list.rel_refl_strong)
qed

theorem generate_order_items_changes_only_total_amount_witness:
  "generate_order_items cents example_draws two_orders two_products 4
     = Inr (example_items, example_orders, sconst 0) \<and>
   length example_orders = length two_orders \<and>
   list_all2 (\<lambda>new old. \<exists>t. new = old\<lparr>total_amount := t\<rparr>) example_orders two_orders \<and>
   list_all2 (\<lambda>new old.
      order_id new = order_id old \<and> o_customer_id new = o_customer_id old \<and>
      order_date new = order_date old \<and> status new = status old \<and>
      payment_method new = payment_method old) example_orders two_orders"
  using generate_order_items_changes_only_total_amount [OF example_run] example_run
  by blast

section \<open>C4: orders and their customers\<close>

lemma make_order_Inr:
  assumes "make_order F customers oid (fake, rnd) = Inr (row, s')"
  shows "order_id row = oid \<and> total_amount row = fzero F \<and>
         (\<exists>customer\<in>set customers.
            o_customer_id row = customer_id customer \<and>
            registration_date customer \<le> order_date row \<and>
            order_date row \<le> DATA_END_DATE)"
  using assms unfolding make_order_def bindE_def
  by (auto split: sum.splits prod.splits
      dest!: random_choice_Inr date_between_dates_range)

lemma for_each_set:
  assumes "\<And>i s a s'. body i s = Inr (a, s') \<Longrightarrow> P a"
  shows "for_each body ids s = Inr (rows, s') \<Longrightarrow> \<forall>a\<in>set rows. P a"
  by (induction ids arbitrary: s rows) (auto split: sum.splits prod.splits dest: assms)

lemma for_each_first:
  assumes "\<And>i s a s'. body i s = Inr (a, s') \<Longrightarrow> key a = i"
  shows "for_each body ids s = Inr (rows, s') \<Longrightarrow> map key rows = ids"
  by (induction ids arbitrary: s rows) (auto split: sum.splits prod.splits dest: assms)

lemma example_orders_run:
  "generate_orders cents example_faker (1 ## 2 ## 1 ## 0 ## 4 ## 3 ## sconst 0) two_customers 2 =
     Inr ([\<lparr>order_id = 1, o_customer_id = 2, order_date = 739105,
             total_amount = 0, status = ''Shipped'', payment_method = ''Debit Card''\<rparr>,
           \<lparr>order_id = 2, o_customer_id = 1, order_date = 738800,
             total_amount = 0, status = ''Cancelled'',
             payment_method = ''Cash on Delivery''\<rparr>],
          \<lparr>providers = \<lambda>p n. ''lorem'', frandom = 7 ## sconst 0, unique_seen = {}\<rparr>,
          sconst 0)"
  by (simp add: generate_orders_def make_order_def bindE_def random_choice_def
      date_between_dates_def DATA_END_DATE_def statuses_def payment_methods_def
      two_customers_def new_customer_def example_faker_def cents_def upto_rec1)

text \<open>
  C4. Every order that \<open>generate_orders\<close> returns carries the id of a customer of the
  supplied frame, the one it was sampled from, and its \<open>order_date\<close> lies between
  that customer's \<open>registration_date\<close> and the end date of the data; when the customer
  ids of the frame are distinct, the order is not earlier than the registration of
  any customer with its \<open>customer_id\<close>. The order ids are \<open>1, \<dots>, count\<close>.
\<close>

theorem order_date_not_before_registration:
  assumes "generate_orders F fake rnd customers_df count = Inr (orders_df, s')"
  shows "map order_id orders_df = [1..count] \<and>
         (\<forall>row\<in>set orders_df.
            (\<exists>customer\<in>set customers_df.
               o_customer_id row = customer_id customer \<and>
               registration_date customer \<le> order_date row \<and>
               order_date row \<le> DATA_END_DATE) \<and>
            (distinct (map customer_id customers_df) \<longrightarrow>
               (\<forall>customer\<in>set customers_df.
                  customer_id customer = o_customer_id row \<longrightarrow>
                    registration_date customer \<le> order_date row)))"
proof -
  have run: "for_each (make_order F customers_df) [1..count] (fake, rnd) = Inr (orders_df, s')"
    using assms by (simp add: generate_orders_def)
  have ids: "map order_id orders_df = [1..count]"
    by (rule for_each_first [OF _ run]) (auto dest: make_order_Inr)
  have sampled: "\<forall>row\<in>set orders_df. \<exists>customer\<in>set customers_df.
               o_customer_id row = customer_id customer \<and>
               registration_date customer \<le> order_date row \<and>
               order_date row \<le> DATA_END_DATE"
    by (rule for_each_set [OF _ run]) (auto dest: make_order_Inr)
  have referenced: "\<forall>row\<in>set orders_df. distinct (map customer_id customers_df) \<longrightarrow>
               (\<forall>customer\<in>set customers_df.
                  customer_id customer = o_customer_id row \<longrightarrow>
                    registration_date customer \<le> order_date row)"
  proof (intro ballI impI)
    fix row customer
    assume row: "row \<in> set orders_df" and d: "distinct (map customer_id customers_df)"
      and c: "customer \<in> set customers_df" and e: "customer_id customer = o_customer_id row"
    from sampled row obtain c' where c': "c' \<in> set customers_df"
      "o_customer_id row = customer_id c'" "registration_date c' \<le> order_date row" by blast
    from d c c' e have "customer = c'"
      by (metis distinct_map inj_onD)
    with c' show "registration_date customer \<le> order_date row" by simp
  qed
  from ids sampled referenced show ?thesis by blast
qed

theorem order_date_not_before_registration_witness:
  "generate_orders cents example_faker (1 ## 2 ## 1 ## 0 ## 4 ## 3 ## sconst 0) two_customers 2 =
     Inr ([\<lparr>order_id = 1, o_customer_id = 2, order_date = 739105,
             total_amount = 0, status = ''Shipped'', payment_method = ''Debit Card''\<rparr>,
           \<lparr>order_id = 2, o_customer_id = 1, order_date = 738800,
             total_amount = 0, status = ''Cancelled'',
             payment_method = ''Cash on Delivery''\<rparr>],
          \<lparr>providers = \<lambda>p n. ''lorem'', frandom = 7 ## sconst 0, unique_seen = {}\<rparr>,
          sconst 0) \<and>
   distinct (map customer_id two_customers) \<and>
   list_all (\<lambda>row.
      (\<exists>customer\<in>set two_customers.
         o_customer_id row = customer_id customer \<and>
         registration_date customer \<le> order_date row \<and>
         order_date row \<le> DATA_END_DATE) \<and>
      (\<forall>customer\<in>set two_customers.
         customer_id customer = o_customer_id row \<longrightarrow>
           registration_date customer \<le> order_date row))
     [\<lparr>order_id = 1, o_customer_id = 2, order_date = 739105,
       total_amount = 0::int, status = ''Shipped'', payment_method = ''Debit Card''\<rparr>,
      \<lparr>order_id = 2, o_customer_id = 1, order_date = 738800,
       total_amount = 0, status = ''Cancelled'', payment_method = ''Cash on Delivery''\<rparr>]"
proof -
  have d: "distinct (map customer_id two_customers)"
    by (simp add: two_customers_def new_customer_def)
  from order_date_not_before_registration [OF example_orders_run] d example_orders_run
  show ?thesis unfolding list_all_iff by blast
qed

section \<open>C5: reviews and purchases\<close>

lemma make_review_Inr:
  assumes "make_review orders_df (rid, item) (fake, rnd) = Inr (review, s')"
  shows "review_id review = rid \<and> r_product_id review = oi_product_id item \<and>
         1 \<le> rating review \<and> rating review \<le> 5 \<and>
         (\<exists>ord\<in>set orders_df.
            order_id ord = oi_order_id item \<and>
            r_customer_id review = o_customer_id ord \<and>
            order_date ord \<le> review_date review \<and>
            review_date review \<le> DATA_END_DATE)"
  using assms unfolding make_review_def bindE_def
  by (auto split: sum.splits prod.splits loc_result.splits
      dest!: loc_Row date_between_dates_range random_randint_Inr simp: fake_call_def)

lemma df_sample_Inr:
  assumes "df_sample np_seed df n random_state = Inr rows"
  shows "set rows \<subseteq> set df \<and> int (length rows) = n"
  using assms by (auto simp: df_sample_def split: if_splits)

lemma stake_pos: "0 < n \<Longrightarrow> stake n s = shd s # stake (n - 1) (stl s)"
  by (cases n) simp_all

lemma example_reviews_run:
  "generate_reviews (\<lambda>seed. 2 ## 5 ## 3 ## sconst 0) example_faker (3 ## 1 ## sconst 4)
     example_items example_orders 3 =
     Inr ([\<lparr>review_id = 1, r_product_id = 2, r_customer_id = 12,
             rating = 4, review_text = ''lorem'', review_date = 739007\<rparr>,
           \<lparr>review_id = 2, r_product_id = 2, r_customer_id = 12,
             rating = 2, review_text = ''lorem'', review_date = 739009\<rparr>,
           \<lparr>review_id = 3, r_product_id = 1, r_customer_id = 11,
             rating = 5, review_text = ''lorem'', review_date = 739001\<rparr>],
          \<lparr>providers = \<lambda>p n. ''lorem'', frandom = sconst 0, unique_seen = {}\<rparr>,
          sconst 4)"
  by (simp add: generate_reviews_def make_review_def df_sample_def bindE_def loc_def
      random_randint_def date_between_dates_def fake_call_def DATA_END_DATE_def
      example_items_def example_orders_def new_order_def example_faker_def upto_rec1
      stake_pos)

text \<open>
  C5. Every review that \<open>generate_reviews\<close> returns comes from an item of the supplied
  item frame and the order of the supplied order frame that the item references:
  its \<open>product_id\<close> is the item's, its \<open>customer_id\<close> is that order's, and its
  \<open>review_date\<close> lies between that order's \<open>order_date\<close> and the end date of the
  data. As many reviews are returned as were asked for.
\<close>

theorem review_follows_a_purchase:
  assumes "generate_reviews np_seed fake rnd order_items_df orders_df count = Inr (reviews, s')"
  shows "int (length reviews) = count \<and>
         (\<forall>review\<in>set reviews.
            \<exists>item\<in>set order_items_df. \<exists>ord\<in>set orders_df.
              order_id ord = oi_order_id item \<and>
              r_product_id review = oi_product_id item \<and>
              r_customer_id review = o_customer_id ord \<and>
              order_date ord \<le> review_date review \<and>
              review_date review \<le> DATA_END_DATE)"
proof -
  from assms obtain sampled where
    sample: "df_sample np_seed order_items_df count 42 = Inr sampled" and
    run: "for_each (make_review orders_df) (zip [1..int (length sampled)] sampled) (fake, rnd)
            = Inr (reviews, s')"
    by (auto simp: generate_reviews_def bindE_Inr_iff split: if_splits)
  note smp = df_sample_Inr [OF sample]
  have "length reviews = length (zip [1..int (length sampled)] sampled)"
    by (rule for_each_length [OF run])
  then have len: "int (length reviews) = count" using smp by auto
  have all2: "list_all2 (\<lambda>entry review.
            \<exists>ord\<in>set orders_df.
              order_id ord = oi_order_id (snd entry) \<and>
              r_product_id review = oi_product_id (snd entry) \<and>
              r_customer_id review = o_customer_id ord \<and>
              order_date ord \<le> review_date review \<and>
              review_date review \<le> DATA_END_DATE)
          (zip [1..int (length sampled)] sampled) reviews"
  proof (rule for_each_all2 [OF _ run])
    fix i :: "int \<times> 'a order_item_row" and s :: "faker \<times> rng" and a s'
    assume b: "make_review orders_df i s = Inr (a, s')"
    obtain rid item where i: "i = (rid, item)" by (cases i)
    obtain fk g where s: "s = (fk, g)" by (cases s)
    from make_review_Inr [OF b [unfolded i s]] i
    show "\<exists>ord\<in>set orders_df.
              order_id ord = oi_order_id (snd i) \<and>
              r_product_id a = oi_product_id (snd i) \<and>
              r_customer_id a = o_customer_id ord \<and>
              order_date ord \<le> review_date a \<and>
              review_date a \<le> DATA_END_DATE" by simp
  qed
  have "\<forall>review\<in>set reviews.
            \<exists>item\<in>set order_items_df. \<exists>ord\<in>set orders_df.
              order_id ord = oi_order_id item \<and>
              r_product_id review = oi_product_id item \<and>
              r_customer_id review = o_customer_id ord \<and>
              order_date ord \<le> review_date review \<and>
              review_date review \<le> DATA_END_DATE"
  proof
    fix review assume "review \<in> set reviews"
    then obtain k where k: "k < length reviews" "review = reviews ! k"
      by (auto simp: in_set_conv_nth)
    let ?entry = "zip [1..int (length sampled)] sampled ! k"
    have "length (zip [1..int (length sampled)] sampled) = length reviews"
      using all2 by (rule list_all2_lengthD)
    with k(1) have kz: "k < length (zip [1..int (length sampled)] sampled)" by linarith
    from all2 k kz have p: "\<exists>ord\<in>set orders_df.
              order_id ord = oi_order_id (snd ?entry) \<and>
              r_product_id review = oi_product_id (snd ?entry) \<and>
              r_customer_id review = o_customer_id ord \<and>
              order_date ord \<le> review_date review \<and>
              review_date review \<le> DATA_END_DATE"
      unfolding list_all2_conv_all_nth by blast
    from kz have "?entry \<in> set (zip [1..int (length sampled)] sampled)" by (rule nth_mem)
    then have "snd ?entry \<in> set sampled"
      by (metis prod.collapse set_zip_rightD)
    with smp have "snd ?entry \<in> set order_items_df" by auto
    with p show "\<exists>item\<in>set order_items_df. \<exists>ord\<in>set orders_df.
              order_id ord = oi_order_id item \<and>
              r_product_id review = oi_product_id item \<and>
              r_customer_id review = o_customer_id ord \<and>
              order_date ord \<le> review_date review \<and>
              review_date review \<le> DATA_END_DATE" by blast
  qed
  with len show ?thesis by simp
qed

theorem review_follows_a_purchase_witness:
  "generate_reviews (\<lambda>seed. 2 ## 5 ## 3 ## sconst 0) example_faker (3 ## 1 ## sconst 4)
     example_items example_orders 3 =
     Inr ([\<lparr>review_id = 1, r_product_id = 2, r_customer_id = 12,
             rating = 4, review_text = ''lorem'', review_date = 739007\<rparr>,
           \<lparr>review_id = 2, r_product_id = 2, r_customer_id = 12,
             rating = 2, review_text = ''lorem'', review_date = 739009\<rparr>,
           \<lparr>review_id = 3, r_product_id = 1, r_customer_id = 11,
             rating = 5, review_text = ''lorem'', review_date = 739001\<rparr>],
          \<lparr>providers = \<lambda>p n. ''lorem'', frandom = sconst 0, unique_seen = {}\<rparr>,
          sconst 4) \<and>
   list_all (\<lambda>review.
      \<exists>item\<in>set example_items. \<exists>ord\<in>set example_orders.
        order_id ord = oi_order_id item \<and>
        r_product_id review = oi_product_id item \<and>
        r_customer_id review = o_customer_id ord \<and>
        order_date ord \<le> review_date review \<and>
        review_date review \<le> DATA_END_DATE)
     [\<lparr>review_id = 1, r_product_id = 2, r_customer_id = 12,
       rating = 4, review_text = ''lorem'', review_date = 739007\<rparr>,
      \<lparr>review_id = 2, r_product_id = 2, r_customer_id = 12,
       rating = 2, review_text = ''lorem'', review_date = 739009\<rparr>,
      \<lparr>review_id = 3, r_product_id = 1, r_customer_id = 11,
       rating = 5, review_text = ''lorem'', review_date = 739001\<rparr>]"
  using review_follows_a_purchase [OF example_reviews_run] example_reviews_run
  unfolding list_all_iff by blast

section \<open>An example run of the whole generation\<close>

lemmas stage_eval =
  bindE_def random_choice_def random_randint_def date_between_dates_def fake_call_def
  REGISTRATION_START_def DATA_END_DATE_def example_library_def cents_def upto_rec1
  numeral_2_eq_2 [symmetric] example_faker_after_def

lemma example_customers_stage:
  "generate_customers \<lparr>providers = faker_providers example_library,
                        frandom = mt_seed example_library 42, unique_seen = {}\<rparr> 2
     = Inr (example_customers, example_faker_after)"
  by (simp add: generate_customers_def make_customer_def unique_email_def
      UNIQUENESS_MAX_RETRIES_def unique_retry_pos example_customers_def stage_eval)

lemma example_products_stage:
  "generate_products cents example_faker_after (mt_seed example_library 42) 2
     = Inr (example_products, example_faker_after,
            2 ## 6 ## 5 ## 3 ## 5 ## 8 ## 9 ## 7 ## sconst 2)"
  by (simp add: generate_products_def make_product_def random_uniform_def categories_def
      example_products_def stage_eval)

lemma example_orders_stage:
  "generate_orders cents example_faker_after (2 ## 6 ## 5 ## 3 ## 5 ## 8 ## 9 ## 7 ## sconst 2)
     example_customers 2
     = Inr (example_new_orders, example_faker_after, 9 ## 7 ## sconst 2)"
  by (simp add: generate_orders_def make_order_def statuses_def payment_methods_def
      example_customers_def example_new_orders_def stage_eval)

lemma example_order_items_stage:
  "generate_order_items cents (9 ## 7 ## sconst 2) example_new_orders example_products 3
     = Inr (example_order_items, example_final_orders, sconst 2)"
  by (simp add: generate_order_items_def initial_totals_def seed_item_def build_item_def
      write_totals_def fill_remaining.simps loc_def example_new_orders_def
      example_products_def example_order_items_def example_final_orders_def stage_eval)

lemma example_reviews_stage:
  "generate_reviews (np_seed_lib example_library) example_faker_after (sconst 2)
     example_order_items example_final_orders 2
     = Inr (example_reviews, example_faker_after, sconst 2)"
  by (simp add: generate_reviews_def make_review_def df_sample_def stake_pos loc_def
      example_order_items_def example_final_orders_def example_reviews_def stage_eval)

lemma example_generation:
  "generate_main_with example_library example_counts w =
     Inr \<lparr>customers_csv = example_customers, products_csv = example_products,
          orders_csv = example_final_orders, order_items_csv = example_order_items,
          reviews_csv = example_reviews\<rparr>"
proof -
  have fl: "float_lib example_library = cents"
    by (simp add: example_library_def)
  show ?thesis
    by (simp add: generate_main_with_def generate_all_def Let_def example_counts_def fl
        bindE_def example_customers_stage example_products_stage example_orders_stage
        example_order_items_stage example_reviews_stage)
qed

section \<open>C6: a failing query\<close>

lemma run_queries_stops_at_failure:
  assumes "\<forall>p\<in>set pre. \<not> isl (conn p)" and "conn q = Inl e"
  shows "\<exists>log'.
           run_queries conn (pre @ q # post) log results =
             (log',
              Inl (if sqlite3_DatabaseError e then RuntimeError ''Query failed'' e else e)) \<and>
           queries_started log' = queries_started log @ pre @ [q] \<and>
           queries_exported log' = queries_exported log @ pre \<and>
           summaries log' = summaries log \<and>
           (Completed \<in> set log' \<longleftrightarrow> Completed \<in> set log)"
  using assms(1)
proof (induction pre arbitrary: log results)
  case Nil
  from assms(2) show ?case
    by (simp add: execute_and_report_def queries_started_def queries_exported_def summaries_def)
next
  case (Cons p pre)
  from Cons.prems obtain rows secs where p: "conn p = Inr (rows, secs)"
    by (cases "conn p") auto
  from Cons.prems have rest: "\<forall>p\<in>set pre. \<not> isl (conn p)" by simp
  from Cons.IH [OF rest, of "log @ [Running p, Reported p (length rows), Exported p rows]"
      "results @ [(p, length rows, secs)]"]
  show ?case
    by (simp add: execute_and_report_def p queries_started_def queries_exported_def
        summaries_def)
qed

text \<open>
  C6, as stated, fails: when the second query of the battery fails, the three
  queries after it are not run and no summary is printed; the run ends with
  \<open>RuntimeError\<close>.
\<close>

theorem failing_query_counterexample:
  "analyze_main True reviews_table_missing =
     ([Running ''top_customers_by_revenue'',
       Reported ''top_customers_by_revenue'' 3,
       Exported ''top_customers_by_revenue'' [1, 2, 3],
       Running ''product_performance_with_reviews''],
      Inl (RuntimeError ''Analysis failed'' PandasDatabaseError))"
  by (simp add: analyze_main_def query_functions_def execute_and_report_def
      reviews_table_missing_def)

text \<open>
  C6, amended. When a query of the battery fails, the run is aborted: the error
  leaves \<open>execute_and_report\<close> (wrapped in \<open>RuntimeError\<close> when it is a
  \<^verbatim>\<open>sqlite3.DatabaseError\<close>), \<open>main\<close> wraps it in \<open>RuntimeError\<close> and raises it, the
  queries after the failing one are not started, and neither a summary nor the
  completion message is printed. The queries before the failing one have run and
  have been exported.
\<close>

theorem failing_query_aborts_the_run:
  fixes conn :: "'r connection"
  assumes "query_functions = pre @ q # post"
    and "\<forall>p\<in>set pre. \<not> isl (conn p)"
    and "conn q = Inl e"
  shows "\<exists>log.
           analyze_main True conn =
             (log, Inl (RuntimeError ''Analysis failed''
                          (if sqlite3_DatabaseError e then RuntimeError ''Query failed'' e
                           else e))) \<and>
           queries_started log = pre @ [q] \<and>
           queries_exported log = pre \<and>
           summaries log = [] \<and>
           Completed \<notin> set log"
proof -
  have "\<exists>log'. run_queries conn (pre @ q # post) [] [] =
            (log', Inl (if sqlite3_DatabaseError e then RuntimeError ''Query failed'' e else e)) \<and>
          queries_started log' = queries_started ([] :: 'r event list) @ pre @ [q] \<and>
          queries_exported log' = queries_exported ([] :: 'r event list) @ pre \<and>
          summaries log' = summaries ([] :: 'r event list) \<and>
          (Completed \<in> set log' \<longleftrightarrow> Completed \<in> set ([] :: 'r event list))"
    using assms(2,3) by (rule run_queries_stops_at_failure)
  then obtain log' where
    r: "run_queries conn (pre @ q # post) [] [] =
          (log', Inl (if sqlite3_DatabaseError e then RuntimeError ''Query failed'' e else e))"
    and s: "queries_started log' = pre @ [q]" "queries_exported log' = pre"
      "summaries log' = []" "Completed \<notin> set log'"
    by (auto simp: queries_started_def queries_exported_def summaries_def)
  have "analyze_main True conn =
          (log', Inl (RuntimeError ''Analysis failed''
             (if sqlite3_DatabaseError e then RuntimeError ''Query failed'' e else e)))"
    unfolding analyze_main_def assms(1) r by simp
  with s show ?thesis by blast
qed

theorem failing_query_aborts_the_run_witness:
  "query_functions =
     [''top_customers_by_revenue''] @ ''product_performance_with_reviews'' #
     [''complete_order_details'', ''category_sales_summary'', ''customer_engagement_metrics''] \<and>
   \<not> isl (reviews_table_missing ''top_customers_by_revenue'') \<and>
   reviews_table_missing ''product_performance_with_reviews'' = Inl PandasDatabaseError \<and>
   (\<exists>log.
      analyze_main True reviews_table_missing =
        (log, Inl (RuntimeError ''Analysis failed''
                     (if sqlite3_DatabaseError PandasDatabaseError
                      then RuntimeError ''Query failed'' PandasDatabaseError
                      else PandasDatabaseError))) \<and>
      queries_started log = [''top_customers_by_revenue''] @ [''product_performance_with_reviews''] \<and>
      queries_exported log = [''top_customers_by_revenue''] \<and>
      summaries log = [] \<and>
      Completed \<notin> set log)"
proof -
  have h: "query_functions =
     [''top_customers_by_revenue''] @ ''product_performance_with_reviews'' #
     [''complete_order_details'', ''category_sales_summary'', ''customer_engagement_metrics'']"
    "\<forall>p\<in>set [''top_customers_by_revenue'']. \<not> isl (reviews_table_missing p)"
    "reviews_table_missing ''product_performance_with_reviews'' = Inl PandasDatabaseError"
    by (simp_all add: query_functions_def reviews_table_missing_def)
  have t: "\<not> isl (reviews_table_missing ''top_customers_by_revenue'')"
    by (simp add: reviews_table_missing_def)
  from failing_query_aborts_the_run [OF h] h t show ?thesis by blast
qed

section \<open>C7: the load is all or nothing\<close>

lemma execute_insert_Inr:
  "execute_insert engine table row db = Inr db' \<Longrightarrow>
     committed db' = committed db \<and> txn db' \<noteq> None \<and>
     visible db' = (visible db)(table := visible db table @ [row])"
  by (auto simp: execute_insert_def visible_def split: option.splits)

lemma execute_insert_Inl:
  "execute_insert engine table row db = Inl e \<Longrightarrow>
     \<exists>contents. engine contents table row = Some e"
  by (auto simp: execute_insert_def split: option.splits)

lemma executemany_result:
  "executemany engine table rows db = (db', r) \<Longrightarrow>
     committed db' = committed db \<and>
     (txn db \<noteq> None \<longrightarrow> txn db' \<noteq> None) \<and>
     (case r of
        None \<Rightarrow> visible db' = (visible db)(table := visible db table @ rows)
      | Some e \<Rightarrow> \<exists>contents row. engine contents table row = Some e)"
proof (induction rows arbitrary: db)
  case Nil
  then show ?case by simp
next
  case (Cons row rows)
  show ?case
  proof (cases "execute_insert engine table row db")
    case (Inl e)
    with Cons.prems have res: "db' = db" "r = Some e" by simp_all
    from execute_insert_Inl [OF Inl] obtain contents where
      "engine contents table row = Some e" by blast
    then have "\<exists>contents row. engine contents table row = Some e" by blast
    with res show ?thesis by simp
  next
    case (Inr db1)
    with Cons.prems have loop: "executemany engine table rows db1 = (db', r)" by simp
    note ih = Cons.IH [OF loop]
    note st = execute_insert_Inr [OF Inr]
    show ?thesis
    proof (cases r)
      case None
      with ih st show ?thesis by (simp add: fun_eq_iff)
    next
      case (Some e)
      with ih st show ?thesis by simp
    qed
  qed
qed

lemma executemany_taken:
  assumes "\<forall>contents table row. engine contents table row = None"
  shows "\<exists>db'. executemany engine table rows db = (db', None)"
proof (induction rows arbitrary: db)
  case Nil
  then show ?case by simp
next
  case (Cons row rows)
  from assms obtain db1 where "execute_insert engine table row db = Inr db1"
    by (simp add: execute_insert_def)
  with Cons.IH [of db1] show ?case by simp
qed

text \<open>The rows the loop adds for the tables of a list.\<close>

lemma insert_tables_result:
  assumes "insert_tables engine dataframes tables db = (db', r)"
    and "distinct tables"
  shows "committed db' = committed db \<and>
         (txn db \<noteq> None \<longrightarrow> txn db' \<noteq> None) \<and>
         (case r of
            None \<Rightarrow>
              \<forall>table. visible db' table =
                visible db table @
                  (if table \<in> set tables
                   then (case dataframes table of Some rows \<Rightarrow> rows | None \<Rightarrow> [])
                   else [])
          | Some e \<Rightarrow>
              (e = KeyError \<and> (\<exists>table\<in>set tables. dataframes table = None)) \<or>
              (\<exists>contents table row. engine contents table row = Some e))"
  using assms
proof (induction tables arbitrary: db)
  case Nil
  then show ?case by simp
next
  case (Cons table_name rest)
  show ?case
  proof (cases "dataframes table_name")
    case None
    with Cons.prems show ?thesis by auto
  next
    case (Some rows)
    obtain db1 r1 where m: "executemany engine table_name rows db = (db1, r1)"
      by (cases "executemany engine table_name rows db")
    note c = executemany_result [OF m]
    show ?thesis
    proof (cases r1)
      case (Some e)
      with Cons.prems \<open>dataframes table_name = Some rows\<close> m c show ?thesis by auto
    next
      case None
      with Cons.prems Some m have
        loop: "insert_tables engine dataframes rest db1 = (db', r)" by simp
      from Cons.prems have d: "distinct rest" and n: "table_name \<notin> set rest" by simp_all
      note ih = Cons.IH [OF loop d]
      from c None have v1: "visible db1 = (visible db)(table_name := visible db table_name @ rows)"
        by simp
      show ?thesis
      proof (cases r)
        case (Some e)
        with ih c show ?thesis by auto
      next
        case None
        with ih have all: "\<forall>table. visible db' table =
                visible db1 table @
                  (if table \<in> set rest
                   then (case dataframes table of Some rows \<Rightarrow> rows | None \<Rightarrow> [])
                   else [])" by simp
        have "\<forall>table. visible db' table =
                visible db table @
                  (if table \<in> set (table_name # rest)
                   then (case dataframes table of Some rows \<Rightarrow> rows | None \<Rightarrow> [])
                   else [])"
        proof
          fix table
          show "visible db' table =
                visible db table @
                  (if table \<in> set (table_name # rest)
                   then (case dataframes table of Some rows \<Rightarrow> rows | None \<Rightarrow> [])
                   else [])"
          proof (cases "table = table_name")
            case True
            with all n v1 \<open>dataframes table_name = Some rows\<close> show ?thesis by simp
          next
            case False
            with all v1 show ?thesis by simp
          qed
        qed
        with ih c None show ?thesis by simp
      qed
    qed
  qed
qed

lemma insert_tables_taken:
  assumes "\<forall>contents table row. engine contents table row = None"
    and "\<forall>table\<in>set tables. dataframes table \<noteq> None"
  shows "\<exists>db'. insert_tables engine dataframes tables db = (db', None)"
  using assms(2)
proof (induction tables arbitrary: db)
  case Nil
  then show ?case by simp
next
  case (Cons table_name rest)
  from Cons.prems obtain rows where f: "dataframes table_name = Some rows" by auto
  from executemany_taken [OF assms(1)] obtain db1 where
    m: "executemany engine table_name rows db = (db1, None)" by blast
  from Cons.prems have "\<forall>table\<in>set rest. dataframes table \<noteq> None" by simp
  from Cons.IH [OF this, of db1] f m show ?case by simp
qed

lemma execute_begin_Inr:
  "execute_begin db = Inr db0 \<Longrightarrow>
     txn db = None \<and> committed db0 = committed db \<and> txn db0 \<noteq> None \<and>
     visible db0 = committed db"
  by (auto simp: execute_begin_def visible_def split: option.splits)

lemma execute_begin_Inl:
  "execute_begin db = Inl e \<Longrightarrow> e = OperationalError \<and> txn db \<noteq> None"
  by (auto simp: execute_begin_def split: option.splits)

lemma commit_open:
  "txn db \<noteq> None \<Longrightarrow> committed (commit db) = visible db \<and> txn (commit db) = None"
  by (auto simp: commit_def visible_def)

lemma insert_data_success:
  assumes "insert_data engine connection dataframes = (db', Inr ())"
  shows "txn connection = None \<and> txn db' = None \<and>
         (\<forall>table. committed db' table = committed connection table @ loaded dataframes table)"
proof (cases "execute_begin connection")
  case (Inl b)
  with assms show ?thesis
    by (simp add: insert_data_def split: if_splits)
next
  case (Inr db0)
  obtain db1 r where t: "insert_tables engine dataframes insert_order db0 = (db1, r)"
    by (cases "insert_tables engine dataframes insert_order db0")
  have d: "distinct insert_order" by (simp add: insert_order_def)
  note b = execute_begin_Inr [OF Inr]
  note l = insert_tables_result [OF t d]
  show ?thesis
  proof (cases r)
    case (Some e)
    with assms Inr t show ?thesis
      by (simp add: insert_data_def split: if_splits)
  next
    case None
    with assms Inr t have db': "db' = commit db1"
      by (simp add: insert_data_def)
    from l b have "txn db1 \<noteq> None" by simp
    note c = commit_open [OF this]
    from l None b have "\<forall>table. visible db1 table =
        committed connection table @ loaded dataframes table"
      by (simp add: loaded_def)
    with c b db' show ?thesis by simp
  qed
qed

lemma insert_data_failure:
  assumes "insert_data engine connection dataframes = (db', Inl e)"
  shows "committed db' = committed connection \<and>
         ((\<exists>cause. e = RuntimeError ''Insertion failed'' cause \<and>
             sqlite3_DatabaseError cause \<and> txn db' = None) \<or>
          (\<not> sqlite3_DatabaseError e \<and> txn db' \<noteq> None \<and>
           ((e = KeyError \<and> (\<exists>table\<in>set insert_order. dataframes table = None)) \<or>
            (\<exists>contents table row. engine contents table row = Some e))))"
proof (cases "execute_begin connection")
  case (Inl b)
  with execute_begin_Inl [OF Inl] assms show ?thesis
    by (auto simp: insert_data_def rollback_def)
next
  case (Inr db0)
  obtain db1 r where t: "insert_tables engine dataframes insert_order db0 = (db1, r)"
    by (cases "insert_tables engine dataframes insert_order db0")
  have d: "distinct insert_order" by (simp add: insert_order_def)
  note b = execute_begin_Inr [OF Inr]
  note l = insert_tables_result [OF t d]
  show ?thesis
  proof (cases r)
    case None
    with assms Inr t show ?thesis by (simp add: insert_data_def)
  next
    case (Some x)
    from l Some b have keep: "committed db1 = committed connection" "txn db1 \<noteq> None"
      and why: "(x = KeyError \<and> (\<exists>table\<in>set insert_order. dataframes table = None)) \<or>
                (\<exists>contents table row. engine contents table row = Some x)"
      by simp_all
    show ?thesis
    proof (cases "sqlite3_DatabaseError x")
      case True
      with assms Inr t Some have "db' = rollback db1" "e = RuntimeError ''Insertion failed'' x"
        by (simp_all add: insert_data_def)
      with keep True show ?thesis by (simp add: rollback_def)
    next
      case False
      with assms Inr t Some have "db' = db1" "e = x"
        by (simp_all add: insert_data_def)
      with keep False why show ?thesis by simp
    qed
  qed
qed

lemma insert_data_taken:
  assumes "txn connection = None"
    and "\<forall>table\<in>set insert_order. dataframes table \<noteq> None"
    and "\<forall>contents table row. engine contents table row = None"
  shows "\<exists>db'. insert_data engine connection dataframes = (db', Inr ())"
proof -
  from assms(1) obtain db0 where b: "execute_begin connection = Inr db0"
    by (simp add: execute_begin_def)
  from insert_tables_taken [OF assms(3,2)] obtain db1 where
    "insert_tables engine dataframes insert_order db0 = (db1, None)" by blast
  with b show ?thesis by (simp add: insert_data_def)
qed

text \<open>
  C7. \<open>insert_data\<close> loads the five frames in one transaction, all or nothing.
  A call that returns has committed, for every table, exactly the rows of its frame
  after the rows the table had, and has left no transaction open. A call that
  raises has committed nothing: the committed contents of every table are what they
  were before the call. The exception is then either a \<^verbatim>\<open>sqlite3.DatabaseError\<close>, as
  a violated constraint is, which has been rolled back and is raised wrapped in
  \<open>RuntimeError\<close>; or it is none (the \<open>KeyError\<close> of a missing frame, or an
  exception of the binding of a row), and then it leaves the function unwrapped with
  the transaction still open. So when every exception of the engine is a database
  error and the five frames are there, every failing call ends rolled back and
  wrapped. A call on a connection without open transaction whose rows the engine
  all takes returns.
\<close>

theorem insert_data_all_or_nothing:
  "(\<forall>db'. insert_data engine connection dataframes = (db', Inr ()) \<longrightarrow>
      txn connection = None \<and> txn db' = None \<and>
      (\<forall>table. committed db' table = committed connection table @ loaded dataframes table)) \<and>
   (\<forall>db' e. insert_data engine connection dataframes = (db', Inl e) \<longrightarrow>
      committed db' = committed connection \<and>
      ((\<exists>cause. e = RuntimeError ''Insertion failed'' cause \<and>
          sqlite3_DatabaseError cause \<and> txn db' = None) \<or>
       (\<not> sqlite3_DatabaseError e \<and> txn db' \<noteq> None \<and>
        ((e = KeyError \<and> (\<exists>table\<in>set insert_order. dataframes table = None)) \<or>
         (\<exists>contents table row. engine contents table row = Some e))))) \<and>
   ((\<forall>contents table row e. engine contents table row = Some e \<longrightarrow> sqlite3_DatabaseError e) \<and>
    (\<forall>table\<in>set insert_order. dataframes table \<noteq> None) \<longrightarrow>
      (\<forall>db' e. insert_data engine connection dataframes = (db', Inl e) \<longrightarrow>
         committed db' = committed connection \<and> txn db' = None \<and>
         (\<exists>cause. e = RuntimeError ''Insertion failed'' cause \<and> sqlite3_DatabaseError cause))) \<and>
   (txn connection = None \<and>
    (\<forall>table\<in>set insert_order. dataframes table \<noteq> None) \<and>
    (\<forall>contents table row. engine contents table row = None) \<longrightarrow>
      (\<exists>db'. insert_data engine connection dataframes = (db', Inr ())))"
proof (intro conjI allI impI)
  fix db'
  assume "insert_data engine connection dataframes = (db', Inr ())"
  from insert_data_success [OF this]
  show "txn connection = None" and "txn db' = None"
    and "\<And>table. committed db' table = committed connection table @ loaded dataframes table"
    by simp_all
next
  fix db' e
  assume f: "insert_data engine connection dataframes = (db', Inl e)"
  from insert_data_failure [OF f]
  show "committed db' = committed connection" by simp
  from insert_data_failure [OF f]
  show "(\<exists>cause. e = RuntimeError ''Insertion failed'' cause \<and>
          sqlite3_DatabaseError cause \<and> txn db' = None) \<or>
       (\<not> sqlite3_DatabaseError e \<and> txn db' \<noteq> None \<and>
        ((e = KeyError \<and> (\<exists>table\<in>set insert_order. dataframes table = None)) \<or>
         (\<exists>contents table row. engine contents table row = Some e)))" by simp
next
  fix db' e
  assume h: "(\<forall>contents table row e. engine contents table row = Some e \<longrightarrow> sqlite3_DatabaseError e) \<and>
    (\<forall>table\<in>set insert_order. dataframes table \<noteq> None)"
    and f: "insert_data engine connection dataframes = (db', Inl e)"
  note r = insert_data_failure [OF f]
  from r show "committed db' = committed connection" by simp
  from r h have w: "\<exists>cause. e = RuntimeError ''Insertion failed'' cause \<and>
          sqlite3_DatabaseError cause \<and> txn db' = None" by blast
  then show "txn db' = None" by blast
  from w show "\<exists>cause. e = RuntimeError ''Insertion failed'' cause \<and> sqlite3_DatabaseError cause"
    by blast
next
  assume "txn connection = None \<and>
    (\<forall>table\<in>set insert_order. dataframes table \<noteq> None) \<and>
    (\<forall>contents table row. engine contents table row = None)"
  then show "\<exists>db'. insert_data engine connection dataframes = (db', Inr ())"
    using insert_data_taken [of connection dataframes engine] by blast
qed

lemmas load_eval = insert_data_def execute_begin_def insert_order_def execute_insert_def
  visible_def rollback_def commit_def integer_keys_def takes_all_def empty_database_def
  repeated_customer_def oversized_customer_def sound_files_def loaded_database_def
  customer_pending_def

lemma repeated_customer_run:
  "insert_data integer_keys empty_database repeated_customer =
     (empty_database, Inl (RuntimeError ''Insertion failed'' IntegrityError))"
  by (simp add: load_eval)

lemma oversized_customer_run:
  "insert_data integer_keys empty_database oversized_customer =
     (customer_pending, Inl OverflowError)"
  by (simp add: load_eval)

lemma sound_files_run:
  "insert_data takes_all empty_database sound_files = (loaded_database, Inr ())"
  by (simp add: load_eval)

theorem insert_data_all_or_nothing_witness:
  "insert_data integer_keys empty_database repeated_customer =
     (empty_database, Inl (RuntimeError ''Insertion failed'' IntegrityError)) \<and>
   sqlite3_DatabaseError IntegrityError \<and>
   txn empty_database = None \<and>
   insert_data integer_keys empty_database oversized_customer =
     (customer_pending, Inl OverflowError) \<and>
   \<not> sqlite3_DatabaseError OverflowError \<and>
   committed customer_pending = committed empty_database \<and>
   txn customer_pending \<noteq> None \<and>
   list_all (\<lambda>table. sound_files table \<noteq> None) insert_order \<and>
   (\<forall>contents table row. takes_all contents table row = None) \<and>
   insert_data takes_all empty_database sound_files = (loaded_database, Inr ()) \<and>
   txn loaded_database = None \<and>
   list_all (\<lambda>table. committed loaded_database table =
               committed empty_database table @ loaded sound_files table) insert_order"
proof -
  note failed = insert_data_all_or_nothing [of integer_keys empty_database repeated_customer]
  note unbound = insert_data_all_or_nothing [of integer_keys empty_database oversized_customer]
  note sound = insert_data_all_or_nothing [of takes_all empty_database sound_files]
  have db: "sqlite3_DatabaseError IntegrityError" "\<not> sqlite3_DatabaseError OverflowError"
    by simp_all
  have e: "txn empty_database = None" by (simp add: empty_database_def)
  from unbound oversized_customer_run have p:
    "committed customer_pending = committed empty_database" "txn customer_pending \<noteq> None"
    by auto
  have files: "list_all (\<lambda>table. sound_files table \<noteq> None) insert_order"
    by (simp add: sound_files_def insert_order_def)
  have takes: "\<forall>contents table row. takes_all contents table row = None"
    by (simp add: takes_all_def)
  from sound sound_files_run have l: "txn loaded_database = None"
    "\<forall>table. committed loaded_database table =
        committed empty_database table @ loaded sound_files table"
    by blast+
  from l(2) have l2: "list_all (\<lambda>table. committed loaded_database table =
               committed empty_database table @ loaded sound_files table) insert_order"
    by (simp add: list_all_iff)
  from failed repeated_customer_run oversized_customer_run sound_files_run db e p files takes l(1) l2
  show ?thesis by blast
qed

section \<open>When the generators return\<close>

lemma for_each_ok:
  assumes "\<And>i s. i \<in> set ids \<Longrightarrow> \<exists>a s'. body i s = Inr (a, s')"
  shows "\<exists>rows s'. for_each body ids s = Inr (rows, s')"
  using assms
proof (induction ids arbitrary: s)
  case Nil
  then show ?case by simp
next
  case (Cons i ids)
  from Cons.prems [of i s] obtain a s1 where b: "body i s = Inr (a, s1)" by auto
  from Cons.IH [of s1] Cons.prems obtain rows s2 where
    "for_each body ids s1 = Inr (rows, s2)" by auto
  with b show ?case by simp
qed

lemma make_order_ok:
  assumes "customers \<noteq> []"
    and "\<forall>customer\<in>set customers. registration_date customer \<le> DATA_END_DATE"
  shows "\<exists>row s'. make_order F customers oid s = Inr (row, s')"
proof -
  obtain fake rnd where s: "s = (fake, rnd)" by (cases s)
  from assms(1) obtain customer g1 where
    c: "random_choice customers rnd = Inr (customer, g1)"
    using random_choice_ok [of customers rnd] by auto
  from random_choice_Inr [OF c] assms(2)
  have "registration_date customer \<le> DATA_END_DATE" by simp
  from date_between_dates_ok [OF this] obtain od fake1 where
    d: "date_between_dates fake (registration_date customer) DATA_END_DATE = Inr (od, fake1)"
    by blast
  obtain st g2 where c2: "random_choice statuses g1 = Inr (st, g2)"
    using random_choice_ok [of statuses g1] by (auto simp: statuses_def)
  obtain pm g3 where c3: "random_choice payment_methods g2 = Inr (pm, g3)"
    using random_choice_ok [of payment_methods g2] by (auto simp: payment_methods_def)
  show ?thesis
    by (simp add: make_order_def bindE_def s c d c2 c3)
qed

lemma generate_orders_ok:
  assumes "customers_df \<noteq> []"
    and "\<forall>customer\<in>set customers_df. registration_date customer \<le> DATA_END_DATE"
  shows "\<exists>orders_df s'. generate_orders F fake rnd customers_df count = Inr (orders_df, s')"
  unfolding generate_orders_def
  by (rule for_each_ok) (rule make_order_ok [OF assms])

lemma make_review_ok:
  assumes "distinct (map order_id orders_df)"
    and "ord \<in> set orders_df" and "order_id ord = oi_order_id item"
    and "order_date ord \<le> DATA_END_DATE"
  shows "\<exists>review s'. make_review orders_df (rid, item) s = Inr (review, s')"
proof -
  obtain fake rnd where s: "s = (fake, rnd)" by (cases s)
  have l: "loc order_id orders_df (oi_order_id item) = Row ord"
    using loc_distinct [OF assms(1,2)] assms(3) by simp
  from date_between_dates_ok [OF assms(4)] obtain rd fake1 where
    d: "date_between_dates fake (order_date ord) DATA_END_DATE = Inr (rd, fake1)" by blast
  obtain rt g1 where r: "random_randint 1 5 rnd = Inr (rt, g1)"
    using random_randint_ok [of 1 5 rnd] by auto
  obtain tx fake2 where f: "fake_call Paragraph fake1 = (tx, fake2)"
    by (cases "fake_call Paragraph fake1")
  show ?thesis
    by (simp add: make_review_def bindE_def s l d r f)
qed

lemma generate_reviews_ok:
  assumes "orders_df \<noteq> []" and "distinct (map order_id orders_df)"
    and "\<forall>item\<in>set order_items_df. \<exists>ord\<in>set orders_df. order_id ord = oi_order_id item"
    and "\<forall>ord\<in>set orders_df. order_date ord \<le> DATA_END_DATE"
    and "order_items_df \<noteq> []" and "0 \<le> count"
  shows "\<exists>reviews s'.
           generate_reviews np_seed fake rnd order_items_df orders_df count = Inr (reviews, s')"
proof -
  have "\<exists>sampled. df_sample np_seed order_items_df count 42 = Inr sampled"
    using assms(5,6) by (simp add: df_sample_def)
  then obtain sampled where sample: "df_sample np_seed order_items_df count 42 = Inr sampled"
    by blast
  note smp = df_sample_Inr [OF sample]
  have "\<exists>reviews s'. for_each (make_review orders_df)
          (zip [1..int (length sampled)] sampled) (fake, rnd) = Inr (reviews, s')"
  proof (rule for_each_ok)
    fix i :: "int \<times> 'a order_item_row" and s :: "faker \<times> rng"
    assume i: "i \<in> set (zip [1..int (length sampled)] sampled)"
    obtain rid item where ri: "i = (rid, item)" by (cases i)
    from i ri have "item \<in> set sampled" by (auto dest: set_zip_rightD)
    with smp have "item \<in> set order_items_df" by auto
    with assms(3) obtain ord where o: "ord \<in> set orders_df" "order_id ord = oi_order_id item"
      by blast
    with assms(4) have "order_date ord \<le> DATA_END_DATE" by simp
    from make_review_ok [OF assms(2) o this] ri
    show "\<exists>a s'. make_review orders_df i s = Inr (a, s')" by simp
  qed
  with assms(1) sample show ?thesis
    by (simp add: generate_reviews_def bindE_def)
qed

end
